theory Spec2Isabelle
  imports Complex_Main "HOL-Library.AList" "HOL-Library.FSet" "HOL-Library.Sublist"
begin

section \<open>Constants (src/onchain/constants.ts)\<close>

definition SUPER_MAJORITY_THRESHOLD_NUMERATOR :: nat where
  "SUPER_MAJORITY_THRESHOLD_NUMERATOR = 2"

definition SUPER_MAJORITY_THRESHOLD_DENOMINATOR :: nat where
  "SUPER_MAJORITY_THRESHOLD_DENOMINATOR = 3"

definition REPORT_TIMEOUT_SLOTS :: int where
  "REPORT_TIMEOUT_SLOTS = 100"

definition MAX_DEPENDENCIES :: nat where
  "MAX_DEPENDENCIES = 10"

definition MAX_WORK_REPORT_GAS :: int where
  "MAX_WORK_REPORT_GAS = 200000"

definition MIN_SERVICE_ITEM_GAS :: int where
  "MIN_SERVICE_ITEM_GAS = 10"

definition MAX_CORE_INDEX :: int where
  "MAX_CORE_INDEX = 1023"

definition ANCHOR_MAX_AGE_SLOTS :: int where
  "ANCHOR_MAX_AGE_SLOTS = 50"

section \<open>Data model (src/models)\<close>

text \<open>
  JavaScript numbers that hold slots, epochs, gas and indices are modelled as \<open>int\<close>;
  a JavaScript \<open>Set\<close> of strings whose iteration order is never observed is a
  finite set, and \<open>Set.size\<close> is \<open>fcard\<close>.  The fields \<open>h\<close>, \<open>u\<close>, \<open>f\<close> of
  \<open>authorizationServiceDetails\<close>, \<open>id\<close> of a work item and \<open>context\<close> of a work package
  are renamed, since the short names would capture variables or clash with keywords.
\<close>

record WorkItem =
  itemId :: string
  programHash :: string
  inputData :: string
  gasLimit :: int

record AuthorizationServiceDetails =
  svc_h :: string
  svc_u :: string
  svc_f :: string

record WorkPackage =
  authorizationToken :: string
  authorizationServiceDetails :: AuthorizationServiceDetails
  pkgContext :: string
  workItems :: "WorkItem list"

record RefinementContext =
  anchorBlockRoot :: string
  anchorBlockNumber :: int
  beefyMmrRoot :: string
  currentSlot :: int
  currentEpoch :: int
  currentGuarantors :: "string list"
  previousGuarantors :: "string list"

record AvailabilitySpec =
  totalFragments :: int
  dataFragments :: int
  fragmentHashes :: "string list"

record WorkReport =
  workPackage :: WorkPackage
  refinementContext :: RefinementContext
  pvmOutput :: string
  gasUsed :: int
  availabilitySpec :: "AvailabilitySpec option"
  guarantorSignature :: string
  guarantorPublicKey :: string
  coreIndex :: int
  slot :: int
  dependencies :: "string list"

record WorkDigest =
  hash :: string

section \<open>On-chain state (src/onchain/state.js)\<close>

text \<open>
  The maps \<open>\<rho>\<close>, \<open>\<xi>\<close>, \<open>\<psi>_B\<close>, \<open>\<psi>_O\<close> are only read and written by key, so they are
  partial functions.  The accumulation queue \<open>\<omega>\<close> is iterated by the topological sort,
  and a JavaScript \<open>Map\<close> iterates in insertion order: it is an association list, with
  \<open>Map.set\<close> as \<open>AList.update\<close> (an existing key keeps its place, a new key goes last),
  \<open>Map.delete\<close> as \<open>AList.delete\<close> and \<open>Map.get\<close> as \<open>map_of\<close>.
\<close>

record PendingReportEntry =
  report :: WorkReport
  receivedSignatures :: "string fset"
  submissionSlot :: int

datatype Status = Pending | Ready | Processing

record AccumulationEntry =
  queuedReport :: WorkReport
  status :: Status

record BadReportEntry =
  reason :: string
  disputedBy :: "string fset"

record OffenderEntry =
  disputeCount :: int
  lastDisputeSlot :: int

record Account =
  balance :: int

record ServiceRecord =
  codeHash :: "string option"
  owner :: "string option"

record GlobalState =
  accounts :: "string \<rightharpoonup> Account"
  coreStatus :: "int \<rightharpoonup> string"
  serviceRegistry :: "string \<rightharpoonup> ServiceRecord"
  gs_data :: "(string \<rightharpoonup> string) option"
  gs_log :: "string option"

record OnchainState =
  rho :: "string \<rightharpoonup> PendingReportEntry"
  omega :: "(string \<times> AccumulationEntry) list"
  xi :: "string \<rightharpoonup> WorkReport"
  psi_B :: "string \<rightharpoonup> BadReportEntry"
  psi_O :: "string \<rightharpoonup> OffenderEntry"
  globalState :: GlobalState

definition emptyGlobalState :: GlobalState where
  "emptyGlobalState =
     \<lparr>accounts = Map.empty, coreStatus = Map.empty, serviceRegistry = Map.empty,
      gs_data = None, gs_log = None\<rparr>"

definition newOnchainState :: OnchainState where
  "newOnchainState =
     \<lparr>rho = Map.empty, omega = [], xi = Map.empty, psi_B = Map.empty, psi_O = Map.empty,
      globalState = emptyGlobalState\<rparr>"

definition getReportByDigest :: "OnchainState \<Rightarrow> string \<Rightarrow> WorkReport option" where
  "getReportByDigest S digestHash =
     (case xi S digestHash of
        Some r \<Rightarrow> Some r
      | None \<Rightarrow>
         (case rho S digestHash of
            Some e \<Rightarrow> Some (report e)
          | None \<Rightarrow>
             (case map_of (omega S) digestHash of
                Some q \<Rightarrow> Some (queuedReport q)
              | None \<Rightarrow> None)))"

section \<open>Errors and external collaborators\<close>

text \<open>
  An exception is a value: the class of the error and its message.  \<open>DOMException\<close> is
  what \<open>atob\<close> throws on text that is not base64, \<open>TypeError\<close> what reading a property
  of \<open>undefined\<close> throws.
\<close>

datatype exn =
  ProtocolError string
  | PVMExecutionError string
  | TypeError string
  | DOMException string

fun message :: "exn \<Rightarrow> string" where
  "message (ProtocolError m) = m"
| "message (PVMExecutionError m) = m"
| "message (TypeError m) = m"
| "message (DOMException m) = m"

text \<open>The state delta that \<open>simulatePsiAPVM\<close> returns: each field is optional.\<close>

record StateDelta =
  delta_accounts :: "(string \<rightharpoonup> Account) option"
  delta_data :: "(string \<rightharpoonup> string) option"
  delta_log :: "string option"

text \<open>
  What the processors call and the repository does not define: the platform
  (\<open>atob\<close>, \<open>JSON.parse\<close>), the libraries (js-sha256, tweetnacl) and two files that are
  not among the sources (\<open>models/WorkReport.js\<close> with \<open>toSignableObject\<close>, and
  \<open>accumulation/stateIntegrator.js\<close> with \<open>applyDelta\<close>).  They are parameters:
  \<^item> \<open>signableJSON r\<close> is \<open>JSON.stringify(r.toSignableObject())\<close>;
  \<^item> \<open>sha256\<close> is the hex digest of js-sha256;
  \<^item> \<open>atob s\<close> is \<open>Inr\<close> the decoded binary string, or \<open>Inl\<close> the message of the
    exception thrown;
  \<^item> \<open>nacl_verify msg sig pk\<close> is \<open>nacl.sign.detached.verify\<close> on the encoded message,
    and \<open>False\<close> where that call throws (\<open>verifySignature\<close> catches and returns false);
  \<^item> \<open>parseTransfer\<close> and \<open>parseUpdate\<close> are \<open>JSON.parse\<close> followed by the destructuring
    of \<open>simulatePsiAPVM\<close>, at the types the TypeScript source declares
    (\<open>{from: string, to: string, amount: number}\<close> and \<open>{key: string, value}\<close>), \<open>Inl\<close> the
    message of the \<open>SyntaxError\<close>;
  \<^item> \<open>applyDelta\<close> is the state integrator.
\<close>

record env =
  signableJSON :: "WorkReport \<Rightarrow> string"
  sha256 :: "string \<Rightarrow> string"
  atob :: "string \<Rightarrow> string + string"
  nacl_verify :: "string \<Rightarrow> nat list \<Rightarrow> nat list \<Rightarrow> bool"
  parseTransfer :: "string \<Rightarrow> string + (string \<times> string \<times> int)"
  parseUpdate :: "string \<Rightarrow> string + (string \<times> string)"
  applyDelta :: "GlobalState \<Rightarrow> StateDelta \<Rightarrow> GlobalState"

subsection \<open>src/offchain/signature.js and src/offchain/encoder.js\<close>

definition base64ToPublicKey :: "env \<Rightarrow> string \<Rightarrow> string + nat list" where
  "base64ToPublicKey E publicKeyBase64 =
     (case atob E publicKeyBase64 of
        Inl m \<Rightarrow> Inl m
      | Inr bin \<Rightarrow> Inr (map of_char bin))"

definition verifySignature :: "env \<Rightarrow> string \<Rightarrow> string \<Rightarrow> nat list \<Rightarrow> bool" where
  "verifySignature E messageString signatureBase64 publicKey =
     (case atob E signatureBase64 of
        Inl m \<Rightarrow> False
      | Inr bin \<Rightarrow> nacl_verify E messageString (map of_char bin) publicKey)"

definition generateWorkDigest :: "env \<Rightarrow> WorkReport \<Rightarrow> WorkDigest" where
  "generateWorkDigest E r = \<lparr>hash = sha256 E (signableJSON E r)\<rparr>"

subsection \<open>Number formatting of template literals\<close>

fun showNat :: "nat \<Rightarrow> string" where
  "showNat n =
     (if n < 10 then [''0123456789'' ! n]
      else showNat (n div 10) @ [''0123456789'' ! (n mod 10)])"

declare showNat.simps [simp del]

definition showInt :: "int \<Rightarrow> string" where
  "showInt i = (if i < 0 then CHR ''-'' # showNat (nat (- i)) else showNat (nat i))"

section \<open>The Guarantee processor (src/onchain/extrinsics/guaranteeProcessor.js)\<close>

text \<open>
  \<open>truthy\<close> is the JavaScript truth value of \<open>expectedCodeHash\<close>: \<open>undefined\<close> and the
  empty string are false.
\<close>

definition truthy :: "string option \<Rightarrow> bool" where
  "truthy v = (case v of None \<Rightarrow> False | Some s \<Rightarrow> s \<noteq> [])"

definition expectedCodeHashOf :: "OnchainState \<Rightarrow> string \<Rightarrow> string option" where
  "expectedCodeHashOf S serviceId =
     (case serviceRegistry (globalState S) serviceId of
        None \<Rightarrow> None
      | Some svc \<Rightarrow> codeHash svc)"

definition isGuarantorAssigned :: "WorkReport \<Rightarrow> bool" where
  "isGuarantorAssigned R =
     (let context = refinementContext R;
          reportEpoch = slot R div REPORT_TIMEOUT_SLOTS
      in (reportEpoch = currentEpoch context
            \<and> guarantorPublicKey R \<in> set (currentGuarantors context))
         \<or> (reportEpoch = currentEpoch context - 1
            \<and> guarantorPublicKey R \<in> set (previousGuarantors context)))"

definition isDependencyMet :: "OnchainState \<Rightarrow> WorkDigest list \<Rightarrow> string \<Rightarrow> bool" where
  "isDependencyMet S currentBlockDigests depHash =
     (xi S depHash \<noteq> None \<or> rho S depHash \<noteq> None
      \<or> list_ex (\<lambda>d. hash d = depHash) currentBlockDigests)"

text \<open>
  \<open>validateWorkReport\<close> of the JavaScript file: \<open>Inl\<close> is the exception thrown, \<open>Inr ()\<close>
  a normal return.  The checks whose \<open>throw\<close> is commented out in the source
  (\<open>bad_beefy_mmr\<close>, \<open>bad_state_root\<close>, \<open>bad_service_id\<close>, \<open>bad_code_hash\<close>) throw nothing
  here either; the condition of the \<open>bad_code_hash\<close> test is still evaluated, and reading
  \<open>workItems[0].programHash\<close> of an empty item list raises a \<open>TypeError\<close>.
\<close>

definition validateWorkReport ::
  "env \<Rightarrow> WorkReport \<Rightarrow> OnchainState \<Rightarrow> int \<Rightarrow> WorkDigest list \<Rightarrow> exn + unit" where
  "validateWorkReport E R S nowSlot currentBlockDigests =
     (case base64ToPublicKey E (guarantorPublicKey R) of
        Inl m \<Rightarrow> Inl (DOMException m)
      | Inr publicKeyBytes \<Rightarrow>
         (let context = refinementContext R;
              serviceId = svc_u (authorizationServiceDetails (workPackage R));
              expectedCodeHash = expectedCodeHashOf S serviceId
          in
          if \<not> verifySignature E (signableJSON E R) (guarantorSignature R) publicKeyBytes
          then Inl (ProtocolError ''bad_signature: Work-Report signature is invalid.'')
          else if nowSlot - anchorBlockNumber context > ANCHOR_MAX_AGE_SLOTS
          then Inl (ProtocolError ''anchor_not_recent: Context anchor block is too old.'')
          else if coreIndex R < 0 \<or> coreIndex R > MAX_CORE_INDEX
          then Inl (ProtocolError ''bad_core_index: Core index is out of bounds.'')
          else if truthy expectedCodeHash \<and> workItems (workPackage R) = []
          then Inl (TypeError ''Cannot read properties of undefined (reading 'programHash')'')
          else if \<not> isGuarantorAssigned R
          then Inl (ProtocolError
            ''wrong_assignment / not_authorized: Unexpected guarantor for work report core or not authorized.'')
          else if coreStatus (globalState S) (coreIndex R) = Some ''engaged''
          then Inl (ProtocolError
            (''core_engaged: Core '' @ showInt (coreIndex R) @ '' is not available.''))
          else if slot R > nowSlot
          then Inl (ProtocolError ''future_report_slot: Report refers to a slot in the future.'')
          else if nowSlot - slot R > REPORT_TIMEOUT_SLOTS
          then Inl (ProtocolError
            ''report_before_last_rotation: Report guarantee slot is too old.'')
          else if length (dependencies R) > MAX_DEPENDENCIES
          then Inl (ProtocolError
            ''too_many_dependencies: Work report has too many dependencies.'')
          else
            (case find (\<lambda>depHash. \<not> isDependencyMet S currentBlockDigests depHash)
                    (dependencies R) of
               Some depHash \<Rightarrow>
                 Inl (ProtocolError
                   (''dependency_missing / segment_root_lookup_invalid: Dependency ''
                      @ depHash @ '' not found.''))
             | None \<Rightarrow>
                 if gasUsed R > MAX_WORK_REPORT_GAS
                 then Inl (ProtocolError
                   ''too_high_work_report_gas: Work report per core gas is too high.'')
                 else if list_ex (\<lambda>item. gasLimit item < MIN_SERVICE_ITEM_GAS)
                           (workItems (workPackage R))
                 then Inl (ProtocolError
                   ''service_item_gas_too_low: Accumulate gas is below the service minimum.'')
                 else if xi S (hash (generateWorkDigest E R)) \<noteq> None
                 then Inl (ProtocolError
                   ''duplicate_package_in_recent_history: Package was already finalized.'')
                 else Inr ())))"

text \<open>
  \<open>validateWorkReport\<close> of the TypeScript file (guaranteeProcessor.ts): it has no core
  index check, and its \<open>bad_code_hash\<close> check is active, with optional chaining on
  \<open>workItems?.[0]?.programHash\<close>.
\<close>

definition firstProgramHash :: "WorkReport \<Rightarrow> string option" where
  "firstProgramHash R =
     (case workItems (workPackage R) of [] \<Rightarrow> None | w # ws \<Rightarrow> Some (programHash w))"

definition validateWorkReport_ts ::
  "env \<Rightarrow> WorkReport \<Rightarrow> OnchainState \<Rightarrow> int \<Rightarrow> WorkDigest list \<Rightarrow> exn + unit" where
  "validateWorkReport_ts E R S nowSlot currentBlockDigests =
     (case base64ToPublicKey E (guarantorPublicKey R) of
        Inl m \<Rightarrow> Inl (DOMException m)
      | Inr publicKeyBytes \<Rightarrow>
         (let context = refinementContext R;
              serviceId = svc_u (authorizationServiceDetails (workPackage R));
              expectedCodeHash = expectedCodeHashOf S serviceId
          in
          if \<not> verifySignature E (signableJSON E R) (guarantorSignature R) publicKeyBytes
          then Inl (ProtocolError ''bad_signature: Work-Report signature is invalid.'')
          else if nowSlot - anchorBlockNumber context > ANCHOR_MAX_AGE_SLOTS
          then Inl (ProtocolError ''anchor_not_recent: Context anchor block is too old.'')
          else if truthy expectedCodeHash \<and> firstProgramHash R \<noteq> expectedCodeHash
          then Inl (ProtocolError
            ''bad_code_hash: Work result code hash doesn't match expected for service.'')
          else if \<not> isGuarantorAssigned R
          then Inl (ProtocolError
            ''wrong_assignment / not_authorized: Unexpected guarantor for work report core or not authorized.'')
          else if coreStatus (globalState S) (coreIndex R) = Some ''engaged''
          then Inl (ProtocolError
            (''core_engaged: Core '' @ showInt (coreIndex R) @ '' is not available.''))
          else if slot R > nowSlot
          then Inl (ProtocolError ''future_report_slot: Report refers to a slot in the future.'')
          else if nowSlot - slot R > REPORT_TIMEOUT_SLOTS
          then Inl (ProtocolError
            ''report_before_last_rotation: Report guarantee slot is too old.'')
          else if length (dependencies R) > MAX_DEPENDENCIES
          then Inl (ProtocolError
            ''too_many_dependencies: Work report has too many dependencies.'')
          else
            (case find (\<lambda>depHash. \<not> isDependencyMet S currentBlockDigests depHash)
                    (dependencies R) of
               Some depHash \<Rightarrow>
                 Inl (ProtocolError
                   (''dependency_missing / segment_root_lookup_invalid: Dependency ''
                      @ depHash @ '' not found.''))
             | None \<Rightarrow>
                 if gasUsed R > MAX_WORK_REPORT_GAS
                 then Inl (ProtocolError
                   ''too_high_work_report_gas: Work report per core gas is too high.'')
                 else if list_ex (\<lambda>item. gasLimit item < MIN_SERVICE_ITEM_GAS)
                           (workItems (workPackage R))
                 then Inl (ProtocolError
                   ''service_item_gas_too_low: Accumulate gas is below the service minimum.'')
                 else if xi S (hash (generateWorkDigest E R)) \<noteq> None
                 then Inl (ProtocolError
                   ''duplicate_package_in_recent_history: Package was already finalized.'')
                 else Inr ())))"

text \<open>
  Charging the offender ledger: the same five lines stand in the Guarantee, the Dispute
  and the accumulation processor.
\<close>

definition chargeOffender ::
  "(string \<rightharpoonup> OffenderEntry) \<Rightarrow> string \<Rightarrow> int \<Rightarrow> (string \<rightharpoonup> OffenderEntry)" where
  "chargeOffender ledger key nowSlot =
     (case ledger key of
        Some offenderRecord \<Rightarrow>
          ledger(key \<mapsto> offenderRecord\<lparr>disputeCount := disputeCount offenderRecord + 1,
                                        lastDisputeSlot := nowSlot\<rparr>)
      | None \<Rightarrow> ledger(key \<mapsto> \<lparr>disputeCount = 1, lastDisputeSlot = nowSlot\<rparr>))"

text \<open>The \<open>catch\<close> block of \<open>processGuaranteeExtrinsic\<close> (lines 147 to 160).\<close>

definition rejectReport :: "env \<Rightarrow> WorkReport \<Rightarrow> OnchainState \<Rightarrow> int \<Rightarrow> exn \<Rightarrow> OnchainState" where
  "rejectReport E R S nowSlot error =
     S\<lparr>psi_B := (psi_B S)(hash (generateWorkDigest E R) \<mapsto>
              \<lparr>reason = message error, disputedBy = {|''system_validation''|}\<rparr>),
       psi_O := chargeOffender (psi_O S) (guarantorPublicKey R) nowSlot\<rparr>"

text \<open>
  \<open>Math.ceil(totalGuarantors * 2 / 3)\<close> on natural numbers (the rosters are arrays, so
  \<open>totalGuarantors\<close> is a length).
\<close>

definition totalGuarantors :: "WorkReport \<Rightarrow> nat" where
  "totalGuarantors R =
     length (currentGuarantors (refinementContext R))
       + length (previousGuarantors (refinementContext R))"

definition requiredSignatures :: "WorkReport \<Rightarrow> nat" where
  "requiredSignatures R =
     (totalGuarantors R * SUPER_MAJORITY_THRESHOLD_NUMERATOR
        + SUPER_MAJORITY_THRESHOLD_DENOMINATOR - 1)
       div SUPER_MAJORITY_THRESHOLD_DENOMINATOR"

text \<open>
  The merge step (lines 166 to 185): \<open>None\<close> is the early \<open>return false\<close> on a duplicate
  signature, \<open>Some\<close> the entry that \<open>\<rho>\<close> holds for the digest afterwards.
\<close>

definition mergeSignature :: "WorkReport \<Rightarrow> OnchainState \<Rightarrow> int \<Rightarrow> string \<Rightarrow> PendingReportEntry option" where
  "mergeSignature R S nowSlot digestHash =
     (case rho S digestHash of
        None \<Rightarrow>
          Some \<lparr>report = R, receivedSignatures = {|guarantorPublicKey R|},
                submissionSlot = nowSlot\<rparr>
      | Some reportEntry \<Rightarrow>
          if guarantorPublicKey R |\<in>| receivedSignatures reportEntry then None
          else Some (reportEntry\<lparr>receivedSignatures :=
                       finsert (guarantorPublicKey R) (receivedSignatures reportEntry)\<rparr>))"

text \<open>The body of \<open>processGuaranteeExtrinsic\<close> after validation (lines 163 to 212).\<close>

definition admitReport :: "env \<Rightarrow> WorkReport \<Rightarrow> OnchainState \<Rightarrow> int \<Rightarrow> bool \<times> OnchainState" where
  "admitReport E R S nowSlot =
     (let digestHash = hash (generateWorkDigest E R) in
      case mergeSignature R S nowSlot digestHash of
        None \<Rightarrow> (False, S)
      | Some reportEntry \<Rightarrow>
          (let S1 = S\<lparr>rho := (rho S)(digestHash \<mapsto> reportEntry)\<rparr> in
           if fcard (receivedSignatures reportEntry) \<ge> requiredSignatures R
           then (True, S1\<lparr>rho := (rho S1)(digestHash := None),
                          omega := AList.update digestHash
                                     \<lparr>queuedReport = R, status = Ready\<rparr> (omega S1)\<rparr>)
           else if nowSlot - submissionSlot reportEntry > REPORT_TIMEOUT_SLOTS
           then (False, S1\<lparr>rho := (rho S1)(digestHash := None),
                           psi_B := (psi_B S1)(digestHash \<mapsto>
                              \<lparr>reason = ''timed_out'', disputedBy = {|''system_timeout''|}\<rparr>)\<rparr>)
           else (True, S1)))"

definition processGuaranteeExtrinsic ::
  "env \<Rightarrow> WorkReport \<Rightarrow> OnchainState \<Rightarrow> int \<Rightarrow> WorkDigest list \<Rightarrow> bool \<times> OnchainState" where
  "processGuaranteeExtrinsic E R S nowSlot currentBlockDigests =
     (case validateWorkReport E R S nowSlot currentBlockDigests of
        Inl error \<Rightarrow> (False, rejectReport E R S nowSlot error)
      | Inr ok \<Rightarrow> admitReport E R S nowSlot)"

text \<open>The TypeScript file's processor: the same body around its own validation.\<close>

definition processGuaranteeExtrinsic_ts ::
  "env \<Rightarrow> WorkReport \<Rightarrow> OnchainState \<Rightarrow> int \<Rightarrow> WorkDigest list \<Rightarrow> bool \<times> OnchainState" where
  "processGuaranteeExtrinsic_ts E R S nowSlot currentBlockDigests =
     (case validateWorkReport_ts E R S nowSlot currentBlockDigests of
        Inl error \<Rightarrow> (False, rejectReport E R S nowSlot error)
      | Inr ok \<Rightarrow> admitReport E R S nowSlot)"

section \<open>The Dispute and Assurance processors\<close>

record DisputeExtrinsic =
  disputedDigestHash :: string
  disputerPublicKey :: string
  disputeReason :: string

text \<open>
  \<open>processDisputeExtrinsic\<close> (disputeProcessor): \<open>Inr\<close> is the state after the call,
  \<open>Inl\<close> the \<open>ProtocolError\<close> of its last guard.  The three \<open>if\<close> statements that look
  for the report run in the source's order, each on the state the one before left.
\<close>

definition processDisputeExtrinsic ::
  "DisputeExtrinsic \<Rightarrow> OnchainState \<Rightarrow> int \<Rightarrow> exn + OnchainState" where
  "processDisputeExtrinsic dispute S nowSlot =
     (let d = disputedDigestHash dispute in
      case getReportByDigest S d of
        None \<Rightarrow> Inr S
      | Some found \<Rightarrow>
         (let (r1, S1) =
                (case rho S d of
                   Some e \<Rightarrow> (Some (report e), S\<lparr>rho := (rho S)(d := None)\<rparr>)
                 | None \<Rightarrow> (None, S));
              (r2, S2) =
                (case map_of (omega S1) d of
                   Some q \<Rightarrow> (Some (queuedReport q), S1\<lparr>omega := AList.delete d (omega S1)\<rparr>)
                 | None \<Rightarrow> (r1, S1));
              r3 = (case xi S2 d of
                      Some r \<Rightarrow> (if r2 = None then Some r else r2)
                    | None \<Rightarrow> r2)
          in case r3 of
               None \<Rightarrow>
                 Inl (ProtocolError (''Attempted to dispute a report ('' @ d
                        @ '') that was not found in active state or history.''))
             | Some disputedReport \<Rightarrow>
                 Inr (S2\<lparr>psi_B :=
                           (case psi_B S2 d of
                              Some existingBadReport \<Rightarrow>
                                (psi_B S2)(d \<mapsto> existingBadReport\<lparr>disputedBy :=
                                   finsert (disputerPublicKey dispute)
                                     (disputedBy existingBadReport)\<rparr>)
                            | None \<Rightarrow>
                                (psi_B S2)(d \<mapsto> \<lparr>reason = disputeReason dispute,
                                                  disputedBy = {|disputerPublicKey dispute|}\<rparr>)),
                         psi_O := chargeOffender (psi_O S2)
                                    (guarantorPublicKey disputedReport) nowSlot\<rparr>)))"

record AssuranceData =
  reportHash :: string
  affirmingParty :: string
  targetDisputeHash :: "string option"
  assuranceReason :: "string option"

definition processAssuranceExtrinsic :: "AssuranceData \<Rightarrow> OnchainState \<Rightarrow> int \<Rightarrow> OnchainState" where
  "processAssuranceExtrinsic assuranceData S nowSlot = S"

section \<open>The \<open>\<Psi>_A\<close> simulator (src/onchain/accumulation/pvmSimulator)\<close>

definition emptyDelta :: StateDelta where
  "emptyDelta = \<lparr>delta_accounts = None, delta_data = None, delta_log = None\<rparr>"

text \<open>
  The body of the \<open>try\<close> block up to the gas test: \<open>Inl\<close> is the message of the error
  thrown, \<open>Inr\<close> the delta and the gas consumed.
\<close>

definition runProgram :: "env \<Rightarrow> WorkItem \<Rightarrow> GlobalState \<Rightarrow> string + (StateDelta \<times> int)" where
  "runProgram E workItem gs =
     (if programHash workItem = ''0xtransfer'' then
        (case parseTransfer E (inputData workItem) of
           Inl m \<Rightarrow> Inl m
         | Inr (sender, receiver, amount) \<Rightarrow>
            (case accounts gs sender of
               None \<Rightarrow> Inl ''Insufficient balance or invalid accounts for transfer.''
             | Some senderAccount \<Rightarrow>
                 if balance senderAccount \<ge> amount
                 then Inr (emptyDelta\<lparr>delta_accounts := Some ((accounts gs)
                        (sender \<mapsto> senderAccount\<lparr>balance := balance senderAccount - amount\<rparr>,
                         receiver \<mapsto>
                           (case accounts gs receiver of
                              None \<Rightarrow> \<lparr>balance = 0 + amount\<rparr>
                            | Some receiverAccount \<Rightarrow>
                                receiverAccount\<lparr>balance := balance receiverAccount + amount\<rparr>)))\<rparr>,
                      50)
                 else Inl ''Insufficient balance or invalid accounts for transfer.''))
      else if programHash workItem = ''0xupdateData'' then
        (case parseUpdate E (inputData workItem) of
           Inl m \<Rightarrow> Inl m
         | Inr (key, val) \<Rightarrow>
             Inr (emptyDelta\<lparr>delta_data := Some
                    ((case gs_data gs of None \<Rightarrow> Map.empty | Some dat \<Rightarrow> dat)(key \<mapsto> val))\<rparr>,
                  20))
      else
        Inr (emptyDelta\<lparr>delta_log := Some
               ((case gs_log gs of None \<Rightarrow> [] | Some l \<Rightarrow> l)
                  @ ''Executed '' @ programHash workItem @ '' with input ''
                  @ inputData workItem @ ''.'')\<rparr>,
             10))"

text \<open>The two bytes in front of the message are the UTF-8 encoding of the letter \<open>\<Psi>\<close>.\<close>

definition pvmFailure :: "WorkItem \<Rightarrow> string \<Rightarrow> exn" where
  "pvmFailure workItem m =
     PVMExecutionError (CHR 0xCE # CHR 0xA8 # ''_A PVM execution failed for Work-Item ''
        @ itemId workItem @ '': '' @ m)"

definition simulatePsiAPVM :: "env \<Rightarrow> WorkItem \<Rightarrow> GlobalState \<Rightarrow> exn + StateDelta" where
  "simulatePsiAPVM E workItem gs =
     (case runProgram E workItem gs of
        Inl m \<Rightarrow> Inl (pvmFailure workItem m)
      | Inr (stateDelta, gasConsumed) \<Rightarrow>
          if gasConsumed > gasLimit workItem
          then Inl (pvmFailure workItem
                 (''Gas limit exceeded for Work-Item '' @ itemId workItem
                    @ ''. Consumed: '' @ showInt gasConsumed
                    @ '', Limit: '' @ showInt (gasLimit workItem)))
          else Inr stateDelta)"

section \<open>The accumulation queue (src/onchain/accumulation/queueHandler)\<close>

subsection \<open>\<open>topologicalSort\<close>\<close>

text \<open>
  \<open>graph\<close> and \<open>inDegree\<close> are JavaScript Maps, the dependents of a node a JavaScript
  Set: all three iterate in insertion order, so they are association lists and a list
  without repetition.  Reading a key that is absent gives 0 as in the TypeScript file
  (\<open>inDegree.get(k) ?? 0\<close>); both loops only read keys of the queue, which are present.
\<close>

type_synonym graph = "(string \<times> string list) list"
type_synonym degrees = "(string \<times> int) list"

definition Set_add :: "'a \<Rightarrow> 'a list \<Rightarrow> 'a list" where
  "Set_add x xs = (if x \<in> set xs then xs else xs @ [x])"

definition degreeOf :: "degrees \<Rightarrow> string \<Rightarrow> int" where
  "degreeOf inDegree digestHash =
     (case map_of inDegree digestHash of None \<Rightarrow> 0 | Some n \<Rightarrow> n)"

text \<open>The first loop: every digest of the queue gets an empty set and in-degree 0.\<close>

fun initNode :: "graph \<times> degrees \<Rightarrow> string \<times> AccumulationEntry \<Rightarrow> graph \<times> degrees" where
  "initNode (graph, inDegree) (digestHash, entry) =
     (AList.update digestHash [] graph, AList.update digestHash 0 inDegree)"

text \<open>The second loop: one step for each dependency of each entry.\<close>

fun addEdge ::
  "(string \<times> AccumulationEntry) list \<Rightarrow> string \<Rightarrow> graph \<times> degrees \<Rightarrow> string
     \<Rightarrow> graph \<times> degrees" where
  "addEdge accumulationQueue digestHash (graph, inDegree) depHash =
     (if map_of accumulationQueue depHash \<noteq> None
      then ((case map_of graph depHash of
               None \<Rightarrow> graph
             | Some dependents \<Rightarrow>
                 AList.update depHash (Set_add digestHash dependents) graph),
            AList.update digestHash (degreeOf inDegree digestHash + 1) inDegree)
      else (graph, inDegree))"

fun addEdges ::
  "(string \<times> AccumulationEntry) list \<Rightarrow> graph \<times> degrees \<Rightarrow> string \<times> AccumulationEntry
     \<Rightarrow> graph \<times> degrees" where
  "addEdges accumulationQueue acc (digestHash, entry) =
     foldl (addEdge accumulationQueue digestHash) acc (dependencies (queuedReport entry))"

definition buildGraph :: "(string \<times> AccumulationEntry) list \<Rightarrow> graph \<times> degrees" where
  "buildGraph accumulationQueue =
     foldl (addEdges accumulationQueue) (foldl initNode ([], []) accumulationQueue)
       accumulationQueue"

text \<open>The inner loop of the \<open>while\<close>: one dependent of the digest taken from the queue.\<close>

fun relax :: "degrees \<times> string list \<Rightarrow> string \<Rightarrow> degrees \<times> string list" where
  "relax (inDegree, queue) neighborDigest =
     (let updatedDegree = degreeOf inDegree neighborDigest - 1;
          inDegree' = AList.update neighborDigest updatedDegree inDegree
      in if updatedDegree = 0 then (inDegree', queue @ [neighborDigest])
         else (inDegree', queue))"

text \<open>
  The \<open>while (head < queue.length)\<close> loop.  It terminates: a digest is pushed only when
  its in-degree falls from 1 to 0, so twice the sum of the positive in-degrees plus the
  number of digests still to take from the queue decreases at every turn.
\<close>

definition degreeSum :: "degrees \<Rightarrow> nat" where
  "degreeSum inDegree = sum_list (map (\<lambda>p. nat (snd p)) inDegree)"

lemma degreeSum_update:
  "degreeSum (AList.update k v ds) + nat (degreeOf ds k) = degreeSum ds + nat v"
  by (induction ds) (auto simp: degreeSum_def degreeOf_def)

lemma relax_measure:
  "relax (ds, q) n = (ds', q') \<Longrightarrow>
     2 * degreeSum ds' + length q' \<le> 2 * degreeSum ds + length q \<and> (\<exists>new. q' = q @ new)"
  using degreeSum_update[of n "degreeOf ds n - 1" ds]
  by (auto simp: Let_def split: if_splits)

lemma foldl_relax_measure:
  "foldl relax (ds, q) ns = (ds', q') \<Longrightarrow>
     2 * degreeSum ds' + length q' \<le> 2 * degreeSum ds + length q \<and> (\<exists>new. q' = q @ new)"
proof (induction ns arbitrary: ds q)
  case Nil
  then show ?case by simp
next
  case (Cons n ns)
  obtain ds1 q1 where r: "relax (ds, q) n = (ds1, q1)" by (cases "relax (ds, q) n")
  from Cons.prems r have f: "foldl relax (ds1, q1) ns = (ds', q')" by simp
  from relax_measure[OF r] Cons.IH[OF f] show ?case by auto
qed

function kahnLoop ::
  "graph \<Rightarrow> degrees \<Rightarrow> string list \<Rightarrow> nat \<Rightarrow> string list \<Rightarrow> string list" where
  "kahnLoop graph inDegree queue head sortedOrder =
     (if head < length queue
      then (let currentDigest = queue ! head;
                neighbors = (case map_of graph currentDigest of None \<Rightarrow> [] | Some ns \<Rightarrow> ns);
                st = foldl relax (inDegree, queue) neighbors
            in kahnLoop graph (fst st) (snd st) (Suc head) (sortedOrder @ [currentDigest]))
      else sortedOrder)"
  by pat_completeness auto
termination
proof (relation "measure (\<lambda>(graph, inDegree, queue, head, sortedOrder).
          2 * degreeSum inDegree + (length queue - head))", goal_cases)
  case 1
  then show ?case by simp
next
  case (2 graph inDegree queue head sortedOrder x xa xb)
  obtain ds' q' where st: "xb = (ds', q')" by (cases xb)
  from 2 st have "foldl relax (inDegree, queue) xa = (ds', q')" by simp
  from foldl_relax_measure[OF this] 2(1) show ?case
    by (auto simp: st)
qed

declare kahnLoop.simps [simp del]

definition topologicalSort :: "(string \<times> AccumulationEntry) list \<Rightarrow> string list" where
  "topologicalSort accumulationQueue =
     (let built = buildGraph accumulationQueue;
          graph = fst built;
          inDegree = snd built;
          queue = map fst (filter (\<lambda>p. snd p = 0) inDegree)
      in kahnLoop graph inDegree queue 0 [])"

subsection \<open>\<open>processAccumulationQueue\<close>\<close>

text \<open>
  The loop over the work items of one report, inside the \<open>try\<close>: the state that
  \<open>onchainState.globalState\<close> holds when the loop ends or throws, and the exception if
  one was thrown.  The JavaScript file assigns what \<open>applyDelta\<close> returns.
\<close>

fun runWorkItems :: "env \<Rightarrow> GlobalState \<Rightarrow> WorkItem list \<Rightarrow> GlobalState \<times> exn option" where
  "runWorkItems E gs [] = (gs, None)"
| "runWorkItems E gs (workItem # rest) =
     (case simulatePsiAPVM E workItem gs of
        Inl error \<Rightarrow> (gs, Some error)
      | Inr stateDelta \<Rightarrow> runWorkItems E (applyDelta E gs stateDelta) rest)"

text \<open>
  The TypeScript file keeps three fields of what \<open>applyDelta\<close> returns
  (\<open>accounts\<close>, \<open>coreStatus\<close>, \<open>serviceRegistry\<close>) and drops the rest.
\<close>

definition keepCoreFields :: "GlobalState \<Rightarrow> GlobalState" where
  "keepCoreFields updatedState =
     \<lparr>accounts = accounts updatedState, coreStatus = coreStatus updatedState,
      serviceRegistry = serviceRegistry updatedState, gs_data = None, gs_log = None\<rparr>"

fun runWorkItems_ts :: "env \<Rightarrow> GlobalState \<Rightarrow> WorkItem list \<Rightarrow> GlobalState \<times> exn option" where
  "runWorkItems_ts E gs [] = (gs, None)"
| "runWorkItems_ts E gs (workItem # rest) =
     (case simulatePsiAPVM E workItem gs of
        Inl error \<Rightarrow> (gs, Some error)
      | Inr stateDelta \<Rightarrow>
          runWorkItems_ts E (keepCoreFields (applyDelta E gs stateDelta)) rest)"

text \<open>
  The body of the \<open>for\<close> loop of \<open>processAccumulationQueue\<close> for one digest; \<open>run\<close> is the
  loop over the work items (\<open>runWorkItems E\<close> or \<open>runWorkItems_ts E\<close>).
\<close>

definition accumulateReport ::
  "(GlobalState \<Rightarrow> WorkItem list \<Rightarrow> GlobalState \<times> exn option) \<Rightarrow> int \<Rightarrow> OnchainState \<Rightarrow> string
     \<Rightarrow> OnchainState" where
  "accumulateReport run nowSlot S digestHash =
     (case map_of (omega S) digestHash of
        None \<Rightarrow> S
      | Some entry \<Rightarrow>
          if status entry \<noteq> Ready then S
          else
            (let R = queuedReport entry;
                 S1 = S\<lparr>omega := AList.update digestHash (entry\<lparr>status := Processing\<rparr>)
                                   (omega S)\<rparr>;
                 (gs', thrown) = run (globalState S1) (workItems (workPackage R))
             in case thrown of
                  None \<Rightarrow>
                    S1\<lparr>globalState := gs',
                       omega := AList.delete digestHash (omega S1),
                       xi := (xi S1)(digestHash \<mapsto> R)\<rparr>
                | Some error \<Rightarrow>
                    S1\<lparr>globalState := gs',
                       omega := AList.delete digestHash (omega S1),
                       psi_B := (psi_B S1)(digestHash \<mapsto>
                          \<lparr>reason = ''accumulation_failed: '' @ message error,
                           disputedBy = {|''system_accumulation''|}\<rparr>),
                       psi_O := chargeOffender (psi_O S1) (guarantorPublicKey R) nowSlot\<rparr>))"

definition processAccumulationQueue :: "env \<Rightarrow> OnchainState \<Rightarrow> int \<Rightarrow> OnchainState" where
  "processAccumulationQueue E S nowSlot =
     foldl (accumulateReport (runWorkItems E) nowSlot) S (topologicalSort (omega S))"

definition processAccumulationQueue_ts :: "env \<Rightarrow> OnchainState \<Rightarrow> int \<Rightarrow> OnchainState" where
  "processAccumulationQueue_ts E S nowSlot =
     foldl (accumulateReport (runWorkItems_ts E) nowSlot) S (topologicalSort (omega S))"

section \<open>Runs of the component\<close>

text \<open>
  What a driver such as scripts/phasetwo.js does with one \<open>OnchainState\<close>: a sequence of
  calls of the four processors, each at the slot the driver passes.  \<open>step\<close> is the
  state after one call.  The \<open>throw\<close> of the Dispute processor is never reached (past
  its first guard the report is in one of \<open>\<rho>\<close>, \<open>\<omega>\<close>, \<open>\<xi>\<close>; see \<open>processDisputeExtrinsic_xi\<close>
  below), so the case \<open>Inl\<close> of \<open>step\<close> is never taken.
\<close>

datatype call =
    Guarantee WorkReport int "WorkDigest list"
  | Dispute DisputeExtrinsic int
  | Assurance AssuranceData int
  | Accumulation int

fun step :: "env \<Rightarrow> OnchainState \<Rightarrow> call \<Rightarrow> OnchainState" where
  "step E S (Guarantee workReport nowSlot currentBlockDigests) =
     snd (processGuaranteeExtrinsic E workReport S nowSlot currentBlockDigests)"
| "step E S (Dispute dispute nowSlot) =
     (case processDisputeExtrinsic dispute S nowSlot of Inr S' \<Rightarrow> S' | Inl error \<Rightarrow> S)"
| "step E S (Assurance assuranceData nowSlot) = processAssuranceExtrinsic assuranceData S nowSlot"
| "step E S (Accumulation nowSlot) = processAccumulationQueue E S nowSlot"

section \<open>The state integrator\<close>

text \<open>
  Modelled from the spec: \<open>applyDelta\<close> of \<open>accumulation/stateIntegrator.js\<close>, a file that
  is not among the sources.  The specification (4.5.3) says: a delta carries optional
  \<open>accounts\<close> (merged by key, replacing account records), an optional \<open>data\<close> map
  (shallow-merged) and an optional \<open>log\<close> (string append); fields that the delta does
  not mention are unchanged.  The theorems below take \<open>applyDelta\<close> as a parameter; this
  definition only instantiates it in the examples.
\<close>

definition applyDelta_spec :: "GlobalState \<Rightarrow> StateDelta \<Rightarrow> GlobalState" where
  "applyDelta_spec gs delta =
     gs\<lparr>accounts := (case delta_accounts delta of
                        None \<Rightarrow> accounts gs
                      | Some acc \<Rightarrow> accounts gs ++ acc),
        gs_data := (case delta_data delta of
                      None \<Rightarrow> gs_data gs
                    | Some dat \<Rightarrow>
                        Some ((case gs_data gs of None \<Rightarrow> Map.empty | Some old \<Rightarrow> old) ++ dat)),
        gs_log := (case delta_log delta of
                     None \<Rightarrow> gs_log gs
                   | Some l \<Rightarrow> Some ((case gs_log gs of None \<Rightarrow> [] | Some old \<Rightarrow> old) @ l))\<rparr>"

section \<open>Example data\<close>

text \<open>
  A small environment and the reports of the repository's demonstration scripts
  (scripts/phasetwo.js: three guarantors in the current rotation, slot 100, epoch 1),
  on which the theorems are instantiated.  The example digest is the authorization
  token and the PVM output, so that, as in the scripts, the reports that different
  guarantors sign for one package share their digest; the example signature scheme
  accepts a signature that equals the public key.
\<close>

definition demo_parseTransfer :: "string \<Rightarrow> string + (string \<times> string \<times> int)" where
  \<open>demo_parseTransfer s =
     (if s = ''{"from":"0xAlice","to":"0xBob","amount":100}''
      then Inr (''0xAlice'', ''0xBob'', 100)
      else if s = ''{"from":"0xBob","to":"0xAlice","amount":5000}''
      then Inr (''0xBob'', ''0xAlice'', 5000)
      else Inl ''Unexpected end of JSON input'')\<close>

definition demo_parseUpdate :: "string \<Rightarrow> string + (string \<times> string)" where
  \<open>demo_parseUpdate s =
     (if s = ''{"key":"data1","value":"valueA"}'' then Inr (''data1'', ''"valueA"'')
      else Inl ''Unexpected end of JSON input'')\<close>

definition demo_atob :: "string \<Rightarrow> string + string" where
  "demo_atob s =
     (if CHR ''!'' \<in> set s then Inl ''The string to be decoded is not correctly encoded.''
      else Inr s)"

definition demo_env :: env where
  "demo_env =
     \<lparr>signableJSON = (\<lambda>r. authorizationToken (workPackage r) @ ''/'' @ pvmOutput r),
      sha256 = (\<lambda>s. s),
      atob = demo_atob,
      nacl_verify = (\<lambda>msg sig pk. sig = pk),
      parseTransfer = demo_parseTransfer,
      parseUpdate = demo_parseUpdate,
      applyDelta = applyDelta_spec\<rparr>"

definition demo_item :: WorkItem where
  \<open>demo_item =
     \<lparr>itemId = ''wi-001'', programHash = ''0xprogramhash123'',
      inputData = ''{"key":"data1","value":"valueA"}'', gasLimit = 50000\<rparr>\<close>

definition demo_package :: WorkPackage where
  "demo_package =
     \<lparr>authorizationToken = ''wp1'',
      authorizationServiceDetails =
        \<lparr>svc_h = ''auth.service.com'', svc_u = ''service.jam'', svc_f = ''checkAuth''\<rparr>,
      pkgContext = ''context_wp1'', workItems = [demo_item]\<rparr>"

definition demo_context :: RefinementContext where
  "demo_context =
     \<lparr>anchorBlockRoot = ''0xanchorblockroot_valid_99'', anchorBlockNumber = 99,
      beefyMmrRoot = ''0xbeefymmrroot_valid_99'', currentSlot = 100, currentEpoch = 1,
      currentGuarantors = [''g1'', ''g2'', ''g3''], previousGuarantors = []\<rparr>"

definition demo_report :: "string \<Rightarrow> WorkReport" where
  "demo_report key =
     \<lparr>workPackage = demo_package, refinementContext = demo_context, pvmOutput = ''out'',
      gasUsed = 500, availabilitySpec = None, guarantorSignature = key,
      guarantorPublicKey = key, coreIndex = 0, slot = 100, dependencies = []\<rparr>"

definition demo_state :: OnchainState where
  "demo_state =
     newOnchainState\<lparr>globalState :=
       \<lparr>accounts = [''0xAlice'' \<mapsto> \<lparr>balance = 1000\<rparr>, ''0xBob'' \<mapsto> \<lparr>balance = 500\<rparr>],
        coreStatus = [0 \<mapsto> ''available'', 1 \<mapsto> ''engaged''],
        serviceRegistry = [''service.jam'' \<mapsto>
           \<lparr>codeHash = Some ''0xprogramhash123'', owner = Some ''0xServiceOwner''\<rparr>],
        gs_data = None, gs_log = None\<rparr>\<rparr>"

text \<open>
  The state after the Guarantees of the given guarantors for the example package, each
  processed at slot 100, starting from the empty \<open>OnchainState\<close>.
\<close>

definition demo_guarantees :: "string list \<Rightarrow> OnchainState" where
  "demo_guarantees keys =
     foldl (\<lambda>S key. snd (processGuaranteeExtrinsic demo_env (demo_report key) S 100 []))
       newOnchainState keys"



definition forged_report :: WorkReport where
  "forged_report = (demo_report ''g1'')\<lparr>guarantorSignature := ''forged'', coreIndex := - 1\<rparr>"

definition after_g1 :: OnchainState where
  "after_g1 =
     demo_state\<lparr>rho := [''wp1/out'' \<mapsto>
        \<lparr>report = demo_report ''g1'', receivedSignatures = {|''g1''|}, submissionSlot = 100\<rparr>]\<rparr>"

definition finalized_state :: OnchainState where
  "finalized_state = demo_state\<lparr>xi := [''wp1/out'' \<mapsto> demo_report ''g1'']\<rparr>"

definition unregistered_report :: WorkReport where
  "unregistered_report =
     (demo_report ''g1'')\<lparr>workPackage := demo_package\<lparr>authorizationServiceDetails :=
        \<lparr>svc_h = ''auth.service.com'', svc_u = ''unknown.service'', svc_f = ''checkAuth''\<rparr>\<rparr>\<rparr>"

text \<open>The example state with that service registered under the code hash of the example item.\<close>

definition registered_state :: OnchainState where
  "registered_state =
     demo_state\<lparr>globalState := (globalState demo_state)\<lparr>serviceRegistry :=
        (serviceRegistry (globalState demo_state))(''unknown.service'' \<mapsto>
           \<lparr>codeHash = Some ''0xprogramhash123'', owner = None\<rparr>)\<rparr>\<rparr>"

definition transfer_ok :: WorkItem where
  \<open>transfer_ok =
     \<lparr>itemId = ''wi-003'', programHash = ''0xtransfer'',
      inputData = ''{"from":"0xAlice","to":"0xBob","amount":100}'', gasLimit = 70\<rparr>\<close>

definition transfer_fails :: WorkItem where
  \<open>transfer_fails =
     \<lparr>itemId = ''wi-004'', programHash = ''0xtransfer'',
      inputData = ''{"from":"0xBob","to":"0xAlice","amount":5000}'', gasLimit = 70\<rparr>\<close>

definition transfer_report :: WorkReport where
  "transfer_report =
     (demo_report ''g1'')\<lparr>workPackage := demo_package\<lparr>workItems := [transfer_ok, transfer_fails]\<rparr>\<rparr>"

definition queued_state :: OnchainState where
  "queued_state =
     demo_state\<lparr>omega := [(''wp1/out'', \<lparr>queuedReport = transfer_report, status = Ready\<rparr>)]\<rparr>"

definition other_report :: WorkReport where
  "other_report =
     (demo_report ''g1'')\<lparr>workPackage := demo_package\<lparr>authorizationToken := ''wp0''\<rparr>\<rparr>"

definition dependent_report :: WorkReport where
  "dependent_report =
     (demo_report ''g1'')\<lparr>workPackage := demo_package\<lparr>authorizationToken := ''wp2''\<rparr>,
                          dependencies := [''wp1/out'']\<rparr>"

definition queue_10 :: "(string \<times> AccumulationEntry) list" where
  "queue_10 =
     [(''wp1/out'', \<lparr>queuedReport = demo_report ''g1'', status = Ready\<rparr>),
      (''wp0/out'', \<lparr>queuedReport = other_report, status = Ready\<rparr>)]"

definition queue_01 :: "(string \<times> AccumulationEntry) list" where
  "queue_01 =
     [(''wp0/out'', \<lparr>queuedReport = other_report, status = Ready\<rparr>),
      (''wp1/out'', \<lparr>queuedReport = demo_report ''g1'', status = Ready\<rparr>)]"

definition queue_210 :: "(string \<times> AccumulationEntry) list" where
  "queue_210 =
     [(''wp2/out'', \<lparr>queuedReport = dependent_report, status = Ready\<rparr>),
      (''wp1/out'', \<lparr>queuedReport = demo_report ''g1'', status = Ready\<rparr>),
      (''wp0/out'', \<lparr>queuedReport = other_report, status = Ready\<rparr>)]"

section \<open>Unfolding rules for the examples\<close>

lemmas demo_defs =
  demo_env_def demo_atob_def demo_report_def demo_package_def demo_item_def demo_context_def
  demo_state_def newOnchainState_def emptyGlobalState_def demo_guarantees_def

lemmas guarantee_defs =
  processGuaranteeExtrinsic_def validateWorkReport_def admitReport_def mergeSignature_def
  rejectReport_def chargeOffender_def base64ToPublicKey_def verifySignature_def
  generateWorkDigest_def expectedCodeHashOf_def truthy_def isGuarantorAssigned_def
  isDependencyMet_def requiredSignatures_def totalGuarantors_def
  SUPER_MAJORITY_THRESHOLD_NUMERATOR_def SUPER_MAJORITY_THRESHOLD_DENOMINATOR_def
  REPORT_TIMEOUT_SLOTS_def MAX_DEPENDENCIES_def MAX_WORK_REPORT_GAS_def
  MIN_SERVICE_ITEM_GAS_def MAX_CORE_INDEX_def ANCHOR_MAX_AGE_SLOTS_def

lemmas variant_defs = forged_report_def after_g1_def

lemmas eval_defs =
  demo_defs variant_defs guarantee_defs fcard_finsert_if fcard_fempty Let_def

lemmas pvm_defs =
  simulatePsiAPVM_def runProgram_def pvmFailure_def emptyDelta_def applyDelta_spec_def
  demo_parseTransfer_def demo_parseUpdate_def keepCoreFields_def

lemmas queue_defs =
  processAccumulationQueue_def processAccumulationQueue_ts_def accumulateReport_def
  topologicalSort_def buildGraph_def kahnLoop.simps degreeOf_def Set_add_def chargeOffender_def

section \<open>Facts about the Guarantee processor\<close>

lemma requiredSignatures_ceiling:
  "int (requiredSignatures R) = \<lceil>real (totalGuarantors R) * 2 / 3\<rceil>"
  unfolding requiredSignatures_def SUPER_MAJORITY_THRESHOLD_NUMERATOR_def
    SUPER_MAJORITY_THRESHOLD_DENOMINATOR_def
  by linarith

lemma map_of_update_same: "map_of (AList.update k v al) k = Some v"
  by (simp add: update_conv')

lemma OffenderEntry_update_both:
  "r\<lparr>disputeCount := a, lastDisputeSlot := b\<rparr> = \<lparr>disputeCount = a, lastDisputeSlot = b\<rparr>"
  by (cases r) simp

lemma admitReport_merged:
  assumes "mergeSignature R S s (hash (generateWorkDigest E R)) = Some entry"
  shows "admitReport E R S s =
     (if requiredSignatures R \<le> fcard (receivedSignatures entry)
      then (True, S\<lparr>rho := (rho S)(hash (generateWorkDigest E R) := None),
                     omega := AList.update (hash (generateWorkDigest E R))
                                \<lparr>queuedReport = R, status = Ready\<rparr> (omega S)\<rparr>)
      else if s - submissionSlot entry > REPORT_TIMEOUT_SLOTS
      then (False, S\<lparr>rho := (rho S)(hash (generateWorkDigest E R) := None),
                      psi_B := (psi_B S)(hash (generateWorkDigest E R) \<mapsto>
                        \<lparr>reason = ''timed_out'', disputedBy = {|''system_timeout''|}\<rparr>)\<rparr>)
      else (True, S\<lparr>rho := (rho S)(hash (generateWorkDigest E R) \<mapsto> entry)\<rparr>))"
  using assms by (simp add: admitReport_def Let_def)

lemma admitReport_duplicate:
  assumes "rho S (hash (generateWorkDigest E R)) = Some e"
    and "guarantorPublicKey R |\<in>| receivedSignatures e"
  shows "admitReport E R S s = (False, S)"
  using assms by (simp add: admitReport_def mergeSignature_def)

lemma processGuaranteeExtrinsic_xi:
  "xi (snd (processGuaranteeExtrinsic E R S s cbd)) = xi S"
  by (simp add: processGuaranteeExtrinsic_def rejectReport_def admitReport_def Let_def
      split: sum.splits option.splits)

lemma processGuaranteeExtrinsic_ts_xi:
  "xi (snd (processGuaranteeExtrinsic_ts E R S s cbd)) = xi S"
  by (simp add: processGuaranteeExtrinsic_ts_def rejectReport_def admitReport_def Let_def
      split: sum.splits option.splits)

lemma no_bad_service_id:
  "validateWorkReport E R S s cbd = Inl (ProtocolError m) \<Longrightarrow> \<not> prefix ''bad_service_id'' m"
  by (auto simp: validateWorkReport_def Let_def split: sum.splits if_splits option.splits)

lemma no_bad_service_id_ts:
  "validateWorkReport_ts E R S s cbd = Inl (ProtocolError m) \<Longrightarrow> \<not> prefix ''bad_service_id'' m"
  by (auto simp: validateWorkReport_ts_def Let_def split: sum.splits if_splits option.splits)

lemma validateWorkReport_cong_js:
  assumes "(truthy (expectedCodeHashOf S (svc_u (authorizationServiceDetails (workPackage R))))
              \<and> workItems (workPackage R) = [])
         = (truthy (expectedCodeHashOf S' (svc_u (authorizationServiceDetails (workPackage R))))
              \<and> workItems (workPackage R) = [])"
    and "coreStatus (globalState S) = coreStatus (globalState S')"
    and "xi S = xi S'" and "rho S = rho S'"
  shows "validateWorkReport E R S s cbd = validateWorkReport E R S' s cbd"
  unfolding validateWorkReport_def isDependencyMet_def Let_def
  by (simp only: assms)

lemma validateWorkReport_cong_ts:
  assumes "(truthy (expectedCodeHashOf S (svc_u (authorizationServiceDetails (workPackage R))))
              \<and> firstProgramHash R
                   \<noteq> expectedCodeHashOf S (svc_u (authorizationServiceDetails (workPackage R))))
         = (truthy (expectedCodeHashOf S' (svc_u (authorizationServiceDetails (workPackage R))))
              \<and> firstProgramHash R
                   \<noteq> expectedCodeHashOf S' (svc_u (authorizationServiceDetails (workPackage R))))"
    and "coreStatus (globalState S) = coreStatus (globalState S')"
    and "xi S = xi S'" and "rho S = rho S'"
  shows "validateWorkReport_ts E R S s cbd = validateWorkReport_ts E R S' s cbd"
  unfolding validateWorkReport_ts_def isDependencyMet_def Let_def
  by (simp only: assms)

lemma admitReport_first:
  assumes "rho S (hash (generateWorkDigest E R)) = None"
  shows "fst (admitReport E R S s)
     \<and> psi_B (snd (admitReport E R S s)) = psi_B S
     \<and> psi_O (snd (admitReport E R S s)) = psi_O S
     \<and> (rho (snd (admitReport E R S s)) (hash (generateWorkDigest E R)) =
           Some \<lparr>report = R, receivedSignatures = {|guarantorPublicKey R|}, submissionSlot = s\<rparr>
         \<or> map_of (omega (snd (admitReport E R S s))) (hash (generateWorkDigest E R)) =
           Some \<lparr>queuedReport = R, status = Ready\<rparr>)"
proof -
  have m: "mergeSignature R S s (hash (generateWorkDigest E R)) =
      Some \<lparr>report = R, receivedSignatures = {|guarantorPublicKey R|}, submissionSlot = s\<rparr>"
    using assms by (simp add: mergeSignature_def)
  show ?thesis
    by (simp add: admitReport_merged[OF m] REPORT_TIMEOUT_SLOTS_def map_of_update_same)
qed

lemma admitReport_globalState:
  "admitReport E R (S\<lparr>globalState := gs\<rparr>) s =
     (fst (admitReport E R S s), (snd (admitReport E R S s))\<lparr>globalState := gs\<rparr>)"
  by (simp add: admitReport_def mergeSignature_def Let_def split: option.splits)

lemma rejectReport_globalState:
  "rejectReport E R (S\<lparr>globalState := gs\<rparr>) s err = (rejectReport E R S s err)\<lparr>globalState := gs\<rparr>"
  by (simp add: rejectReport_def)

text \<open>
  The branch of \<open>processGuaranteeExtrinsic\<close> that evicts a pending report (lines 202 to
  210): it runs for a Guarantee that has passed validation and added a signature.
\<close>

lemma timeout_branch:
  fixes E R S s cbd
  defines "d \<equiv> hash (generateWorkDigest E R)"
  assumes valid: "validateWorkReport E R S s cbd = Inr ()"
    and pending: "rho S d = Some e"
    and fresh: "guarantorPublicKey R |\<notin>| receivedSignatures e"
    and below: "fcard (finsert (guarantorPublicKey R) (receivedSignatures e)) < requiredSignatures R"
    and late: "s - submissionSlot e > REPORT_TIMEOUT_SLOTS"
  shows "processGuaranteeExtrinsic E R S s cbd =
           (False, S\<lparr>rho := (rho S)(d := None),
                      psi_B := (psi_B S)(d \<mapsto>
                         \<lparr>reason = ''timed_out'', disputedBy = {|''system_timeout''|}\<rparr>)\<rparr>)"
proof -
  have m: "mergeSignature R S s d =
      Some (e\<lparr>receivedSignatures := finsert (guarantorPublicKey R) (receivedSignatures e)\<rparr>)"
    using pending fresh by (simp add: mergeSignature_def)
  show ?thesis
    using valid below late
    by (simp add: processGuaranteeExtrinsic_def
        admitReport_merged[OF m[unfolded d_def], folded d_def])
qed




section \<open>Facts about the Dispute processor and the accumulation\<close>

lemma processDisputeExtrinsic_xi:
  "\<exists>S'. processDisputeExtrinsic x S s = Inr S' \<and> xi S' = xi S"
  by (auto simp: processDisputeExtrinsic_def getReportByDigest_def Let_def
      split: option.splits)

lemma late_dispute:
  assumes "xi S d = Some R0" and "rho S d = None" and "map_of (omega S) d = None"
  shows "processDisputeExtrinsic
           \<lparr>disputedDigestHash = d, disputerPublicKey = p, disputeReason = r\<rparr> S s =
         Inr (S\<lparr>psi_B :=
                  (case psi_B S d of
                     Some bad \<Rightarrow> (psi_B S)(d \<mapsto> bad\<lparr>disputedBy := finsert p (disputedBy bad)\<rparr>)
                   | None \<Rightarrow> (psi_B S)(d \<mapsto> \<lparr>reason = r, disputedBy = {|p|}\<rparr>)),
                 psi_O := chargeOffender (psi_O S) (guarantorPublicKey R0) s\<rparr>)"
  using assms
  by (simp add: processDisputeExtrinsic_def getReportByDigest_def Let_def split: option.splits)

lemma accumulateReport_xi:
  "xi S d \<noteq> None \<Longrightarrow> xi (accumulateReport run s S d') d \<noteq> None"
  by (auto simp: accumulateReport_def Let_def split: option.splits prod.splits)

lemma foldl_accumulateReport_xi:
  "xi S d \<noteq> None \<Longrightarrow> xi (foldl (accumulateReport run s) S ds) d \<noteq> None"
proof (induction ds arbitrary: S)
  case Nil
  then show ?case by simp
next
  case (Cons a ds)
  from Cons.IH[OF accumulateReport_xi[OF Cons.prems]] show ?case by simp
qed

lemma runWorkItems_stops:
  assumes "runWorkItems E gs pre = (gs1, None)" and "simulatePsiAPVM E w gs1 = Inl err"
  shows "runWorkItems E gs (pre @ w # post) = (gs1, Some err)"
  using assms by (induction pre arbitrary: gs) (auto split: sum.splits)

lemma runWorkItems_ts_stops:
  assumes "runWorkItems_ts E gs pre = (gs1, None)" and "simulatePsiAPVM E w gs1 = Inl err"
  shows "runWorkItems_ts E gs (pre @ w # post) = (gs1, Some err)"
  using assms by (induction pre arbitrary: gs) (auto split: sum.splits)

lemma accumulateReport_failure:
  assumes "map_of (omega S) d = Some \<lparr>queuedReport = R, status = Ready\<rparr>"
    and "run (globalState S) (workItems (workPackage R)) = (gs1, Some err)"
  shows "accumulateReport run s S d =
     S\<lparr>globalState := gs1,
       omega := AList.delete d (omega S),
       psi_B := (psi_B S)(d \<mapsto> \<lparr>reason = ''accumulation_failed: '' @ message err,
                                disputedBy = {|''system_accumulation''|}\<rparr>),
       psi_O := chargeOffender (psi_O S) (guarantorPublicKey R) s\<rparr>"
  using assms by (simp add: accumulateReport_def Let_def delete_update_same)




section \<open>Facts about runs\<close>



section \<open>Facts about \<open>topologicalSort\<close>\<close>

text \<open>
  The list that \<open>kahnLoop\<close> returns starts with what it had sorted and what was waiting
  in the queue: the loop only appends.
\<close>

lemma kahnLoop_prefix:
  "head \<le> length queue \<Longrightarrow>
     prefix (sortedOrder @ drop head queue) (kahnLoop graph inDegree queue head sortedOrder)"
proof (induction graph inDegree queue head sortedOrder rule: kahnLoop.induct)
  case (1 graph inDegree queue head sortedOrder)
  show ?case
  proof (cases "head < length queue")
    case False
    with "1.prems" show ?thesis by (simp add: kahnLoop.simps)
  next
    case True
    define ns where "ns = (case map_of graph (queue ! head) of None \<Rightarrow> [] | Some ns \<Rightarrow> ns)"
    define st where "st = foldl relax (inDegree, queue) ns"
    obtain new where new: "snd st = queue @ new"
      using foldl_relax_measure[of inDegree queue ns "fst st" "snd st"] by (auto simp: st_def)
    have le: "Suc head \<le> length (snd st)" using True new by simp
    have IH: "prefix ((sortedOrder @ [queue ! head]) @ drop (Suc head) (snd st))
                (kahnLoop graph (fst st) (snd st) (Suc head) (sortedOrder @ [queue ! head]))"
      using "1.IH"[OF True refl ns_def st_def le] .
    have unfold: "kahnLoop graph inDegree queue head sortedOrder =
        kahnLoop graph (fst st) (snd st) (Suc head) (sortedOrder @ [queue ! head])"
      using True by (subst kahnLoop.simps) (simp add: Let_def st_def ns_def)
    have "(sortedOrder @ [queue ! head]) @ drop (Suc head) (snd st)
            = (sortedOrder @ drop head queue) @ new"
      using True by (simp add: new Cons_nth_drop_Suc)
    then have "prefix (sortedOrder @ drop head queue)
                 ((sortedOrder @ [queue ! head]) @ drop (Suc head) (snd st))"
      by (metis prefixI)
    with IH show ?thesis unfolding unfold by (meson prefix_order.trans)
  qed
qed

lemma topologicalSort_starts_with_roots:
  "prefix (map fst (filter (\<lambda>p. snd p = 0) (snd (buildGraph accumulationQueue))))
     (topologicalSort accumulationQueue)"
  using kahnLoop_prefix[of 0 "map fst (filter (\<lambda>p. snd p = 0) (snd (buildGraph accumulationQueue)))"
      "[]" "fst (buildGraph accumulationQueue)" "snd (buildGraph accumulationQueue)"]
  by (simp add: topologicalSort_def Let_def)

text \<open>
  The in-degree that the second loop of \<open>topologicalSort\<close> computes for a digest is 0
  exactly when no dependency of its report is a key of the queue.
\<close>

lemma degreeOf_update:
  "degreeOf (AList.update k v ds) k' = (if k' = k then v else degreeOf ds k')"
  by (simp add: degreeOf_def update_conv')

lemma foldl_addEdge_degrees:
  fixes accumulationQueue d deps g ds
  defines "r \<equiv> snd (foldl (addEdge accumulationQueue d) (g, ds) deps)"
  shows "(d \<in> fst ` set ds \<longrightarrow> map fst r = map fst ds)
       \<and> (\<forall>k. k \<noteq> d \<longrightarrow> degreeOf r k = degreeOf ds k)
       \<and> degreeOf ds d \<le> degreeOf r d
       \<and> ((degreeOf r d = degreeOf ds d)
            = list_all (\<lambda>dep. map_of accumulationQueue dep = None) deps)"
  unfolding r_def
proof (induction deps arbitrary: g ds)
  case Nil
  then show ?case by simp
next
  case (Cons dep deps)
  obtain g' ds' where step: "addEdge accumulationQueue d (g, ds) dep = (g', ds')"
    by (cases "addEdge accumulationQueue d (g, ds) dep")
  have ds': "ds' = (if map_of accumulationQueue dep \<noteq> None
                    then AList.update d (degreeOf ds d + 1) ds else ds)"
    using step by (auto split: if_splits)
  have keys: "d \<in> fst ` set ds \<Longrightarrow> map fst ds' = map fst ds \<and> d \<in> fst ` set ds'"
    by (auto simp: ds' update_keys dom_update)
  have other: "\<And>k. k \<noteq> d \<Longrightarrow> degreeOf ds' k = degreeOf ds k"
    by (simp add: ds' degreeOf_update)
  have self: "degreeOf ds' d = (if map_of accumulationQueue dep \<noteq> None
                                then degreeOf ds d + 1 else degreeOf ds d)"
    by (simp add: ds' degreeOf_update)
  have unfold: "foldl (addEdge accumulationQueue d) (g, ds) (dep # deps)
      = foldl (addEdge accumulationQueue d) (g', ds') deps"
    by (simp only: foldl_Cons step)
  show ?case
  proof (cases "map_of accumulationQueue dep = None")
    case True
    with Cons.IH[where g = g' and ds = ds'] keys other self show ?thesis
      unfolding unfold by (auto simp del: addEdge.simps)
  next
    case False
    with Cons.IH[where g = g' and ds = ds'] keys other self show ?thesis
      unfolding unfold by (auto simp del: addEdge.simps)
  qed
qed

lemma foldl_addEdges_degrees:
  fixes accumulationQueue xs g ds
  defines "r \<equiv> snd (foldl (addEdges accumulationQueue) (g, ds) xs)"
  shows "(fst ` set xs \<subseteq> fst ` set ds \<longrightarrow> map fst r = map fst ds)
       \<and> degreeOf ds k \<le> degreeOf r k
       \<and> ((degreeOf r k = degreeOf ds k)
            = (\<forall>p \<in> set xs. fst p = k \<longrightarrow>
                 list_all (\<lambda>dep. map_of accumulationQueue dep = None)
                   (dependencies (queuedReport (snd p)))))"
  unfolding r_def
proof (induction xs arbitrary: g ds)
  case Nil
  then show ?case by simp
next
  case (Cons x xs)
  obtain d e where x: "x = (d, e)" by (cases x)
  obtain g' ds' where step: "addEdges accumulationQueue (g, ds) (d, e) = (g', ds')"
    by (cases "addEdges accumulationQueue (g, ds) (d, e)")
  then have ds': "ds' = snd (foldl (addEdge accumulationQueue d) (g, ds)
                               (dependencies (queuedReport e)))"
    by simp
  note inner = foldl_addEdge_degrees[where d = d and ds = ds and accumulationQueue = accumulationQueue
      and g = g and deps = "dependencies (queuedReport e)", folded ds']
  have keys: "d \<in> fst ` set ds \<Longrightarrow> map fst ds' = map fst ds"
    using inner by blast
  then have keys': "d \<in> fst ` set ds \<Longrightarrow> fst ` set ds' = fst ` set ds"
    by (metis list.set_map)
  have unfold: "foldl (addEdges accumulationQueue) (g, ds) (x # xs)
      = foldl (addEdges accumulationQueue) (g', ds') xs"
    by (simp only: foldl_Cons step x)
  show ?case
  proof (cases "k = d")
    case True
    with Cons.IH[where g = g' and ds = ds'] inner keys keys' show ?thesis
      unfolding unfold by (auto simp: x simp del: addEdges.simps)
  next
    case False
    with Cons.IH[where g = g' and ds = ds'] inner keys keys' show ?thesis
      unfolding unfold by (auto simp: x simp del: addEdges.simps)
  qed
qed

lemma foldl_initNode_keys:
  "distinct (map fst xs) \<Longrightarrow> fst ` set xs \<inter> fst ` set ds = {} \<Longrightarrow>
     map fst (snd (foldl initNode (g, ds) xs)) = map fst ds @ map fst xs"
proof (induction xs arbitrary: g ds)
  case Nil
  then show ?case by simp
next
  case (Cons x xs)
  obtain d e where x: "x = (d, e)" by (cases x)
  have "map fst (snd (foldl initNode (AList.update d [] g, AList.update d 0 ds) xs))
      = map fst (AList.update d 0 ds) @ map fst xs"
    using Cons.prems by (intro Cons.IH) (auto simp: x dom_update)
  then show ?case
    using Cons.prems by (auto simp: x update_keys)
qed

lemma foldl_initNode_degrees:
  "(\<And>k. degreeOf ds k = 0) \<Longrightarrow> degreeOf (snd (foldl initNode (g, ds) xs)) k = 0"
proof (induction xs arbitrary: g ds)
  case Nil
  then show ?case by simp
next
  case (Cons x xs)
  obtain d e where x: "x = (d, e)" by (cases x)
  show ?case
    unfolding x foldl_Cons initNode.simps
    by (rule Cons.IH) (simp add: degreeOf_update Cons.prems)
qed

lemma roots_by_degree:
  assumes "distinct (map fst ds)"
  shows "map fst (filter (\<lambda>p. snd p = 0) ds) = filter (\<lambda>k. degreeOf ds k = 0) (map fst ds)"
proof -
  have "degreeOf ds (fst p) = snd p" if "p \<in> set ds" for p
  proof -
    have "map_of ds (fst p) = Some (snd p)" using assms that by simp
    then show ?thesis by (simp add: degreeOf_def)
  qed
  then have "filter (\<lambda>p. snd p = 0) ds = filter (\<lambda>p. degreeOf ds (fst p) = 0) ds"
    by (intro filter_cong) auto
  then show ?thesis by (simp add: filter_map comp_def)
qed

text \<open>A queue of one report that does not depend on itself is sorted to that report.\<close>

lemma foldl_addEdge_outside:
  "list_all (\<lambda>dep. map_of accumulationQueue dep = None) deps \<Longrightarrow>
     foldl (addEdge accumulationQueue d) acc deps = acc"
proof (induction deps arbitrary: acc)
  case Nil
  then show ?case by simp
next
  case (Cons dep deps)
  obtain g ds where acc: "acc = (g, ds)" by (cases acc)
  from Cons.prems have "addEdge accumulationQueue d acc dep = acc"
    by (simp add: acc)
  with Cons show ?case by simp
qed

lemma topologicalSort_single:
  assumes "d \<notin> set (dependencies (queuedReport e))"
  shows "topologicalSort [(d, e)] = [d]"
proof -
  have "list_all (\<lambda>dep. map_of [(d, e)] dep = None) (dependencies (queuedReport e))"
    using assms by (auto simp: list_all_iff)
  then have b: "buildGraph [(d, e)] = ([(d, [])], [(d, 0)])"
    by (simp add: buildGraph_def foldl_addEdge_outside)
  show ?thesis
    by (simp add: topologicalSort_def b kahnLoop.simps)
qed

text \<open>
  When no report of the queue depends on another one, the graph has no edge and the
  loop returns the queue it started with.
\<close>

lemma kahnLoop_no_edges:
  assumes "\<And>k ns. map_of graph k = Some ns \<Longrightarrow> ns = []"
  shows "kahnLoop graph inDegree queue head sortedOrder = sortedOrder @ drop head queue"
proof (induction "length queue - head" arbitrary: head sortedOrder)
  case 0
  then show ?case by (simp add: kahnLoop.simps)
next
  case (Suc n)
  then have h: "head < length queue" by simp
  have ns: "(case map_of graph (queue ! head) of None \<Rightarrow> [] | Some ns \<Rightarrow> ns) = []"
    using assms by (simp split: option.splits)
  have "kahnLoop graph inDegree queue head sortedOrder =
        kahnLoop graph inDegree queue (Suc head) (sortedOrder @ [queue ! head])"
    using h by (subst kahnLoop.simps) (simp add: Let_def ns)
  also have "\<dots> = (sortedOrder @ [queue ! head]) @ drop (Suc head) queue"
    using Suc by (intro Suc.hyps(1)) simp
  finally show ?case using h by (simp add: Cons_nth_drop_Suc)
qed

lemma foldl_initNode_graph:
  "(\<And>k ns. map_of g k = Some ns \<Longrightarrow> ns = []) \<Longrightarrow>
     map_of (fst (foldl initNode (g, ds) xs)) k = Some ns \<Longrightarrow> ns = []"
proof (induction xs arbitrary: g ds)
  case Nil
  then show ?case by simp
next
  case (Cons x xs)
  obtain d e where x: "x = (d, e)" by (cases x)
  have "\<And>k ns. map_of (AList.update d [] g) k = Some ns \<Longrightarrow> ns = []"
    using Cons.prems(1) by (auto simp: update_conv' split: if_splits)
  from Cons.IH[OF this] Cons.prems(2) show ?case by (simp add: x)
qed

lemma foldl_addEdges_outside:
  "list_all (\<lambda>p. list_all (\<lambda>dep. map_of accumulationQueue dep = None)
                     (dependencies (queuedReport (snd p)))) xs \<Longrightarrow>
     foldl (addEdges accumulationQueue) acc xs = acc"
proof (induction xs arbitrary: acc)
  case Nil
  then show ?case by simp
next
  case (Cons x xs)
  obtain d e where x: "x = (d, e)" by (cases x)
  from Cons.prems have "addEdges accumulationQueue acc x = acc"
    by (simp add: x foldl_addEdge_outside)
  with Cons show ?case by simp
qed

lemma topologicalSort_independent:
  assumes "distinct (map fst accumulationQueue)"
    and "list_all (\<lambda>p. list_all (\<lambda>dep. map_of accumulationQueue dep = None)
                     (dependencies (queuedReport (snd p)))) accumulationQueue"
  shows "topologicalSort accumulationQueue = map fst accumulationQueue"
proof -
  define built where "built = foldl initNode ([], []) accumulationQueue"
  have b: "buildGraph accumulationQueue = built"
    by (simp add: buildGraph_def built_def foldl_addEdges_outside[OF assms(2)])
  have g: "\<And>k ns. map_of (fst built) k = Some ns \<Longrightarrow> ns = []"
    unfolding built_def by (rule foldl_initNode_graph[where g = "[]"]) auto
  have keys: "map fst (snd built) = map fst accumulationQueue"
    using foldl_initNode_keys[where xs = accumulationQueue and ds = "[]" and g = "[]"] assms(1)
    by (simp add: built_def)
  have deg: "\<And>k. degreeOf (snd built) k = 0"
    unfolding built_def by (rule foldl_initNode_degrees) (simp add: degreeOf_def)
  have "map fst (filter (\<lambda>p. snd p = 0) (snd built)) = map fst accumulationQueue"
    using roots_by_degree[of "snd built"] assms(1) by (simp add: keys deg)
  then show ?thesis
    by (simp add: topologicalSort_def b Let_def kahnLoop_no_edges[OF g])
qed

text \<open>
  The digests with no dependency inside the queue start the result, in the order of
  the queue.
\<close>

lemma topologicalSort_roots_first:
  assumes "distinct (map fst accumulationQueue)"
  shows "prefix
     (map fst (filter (\<lambda>p. list_all (\<lambda>dep. map_of accumulationQueue dep = None)
                               (dependencies (queuedReport (snd p)))) accumulationQueue))
     (topologicalSort accumulationQueue)"
proof -
  obtain g0 ds0 where init: "foldl initNode ([], []) accumulationQueue = (g0, ds0)"
    by (cases "foldl initNode ([], []) accumulationQueue")
  define ds where "ds = snd (buildGraph accumulationQueue)"
  have ds: "ds = snd (foldl (addEdges accumulationQueue) (g0, ds0) accumulationQueue)"
    by (simp add: ds_def buildGraph_def init)
  have keys0: "map fst ds0 = map fst accumulationQueue"
    using foldl_initNode_keys[where xs = accumulationQueue and ds = "[]" and g = "[]"] assms by (simp add: init)
  have deg0: "\<And>k. degreeOf ds0 k = 0"
    using foldl_initNode_degrees[where ds = "[]" and g = "[]" and xs = accumulationQueue] by (simp add: init degreeOf_def)
  have sub: "fst ` set accumulationQueue \<subseteq> fst ` set ds0"
    by (metis keys0 list.set_map order_refl)
  note outer = foldl_addEdges_degrees[where xs = accumulationQueue and ds = ds0
      and accumulationQueue = accumulationQueue and g = g0, folded ds]
  have keys: "map fst ds = map fst accumulationQueue"
    using outer sub keys0 by simp
  have zero: "(degreeOf ds (fst p) = 0)
        = list_all (\<lambda>dep. map_of accumulationQueue dep = None)
            (dependencies (queuedReport (snd p)))"
    if p: "p \<in> set accumulationQueue" for p
  proof -
    have "\<And>q. q \<in> set accumulationQueue \<Longrightarrow> fst q = fst p \<Longrightarrow> q = p"
      using assms p by (metis eq_key_imp_eq_value prod.collapse)
    with outer[where k = "fst p"] p show ?thesis
      by (auto simp: deg0)
  qed
  have "map fst (filter (\<lambda>p. snd p = 0) ds)
      = filter (\<lambda>k. degreeOf ds k = 0) (map fst accumulationQueue)"
    using roots_by_degree[of ds] assms by (simp add: keys)
  also have "\<dots> = map fst (filter (\<lambda>p. degreeOf ds (fst p) = 0) accumulationQueue)"
    by (simp add: filter_map comp_def)
  also have "filter (\<lambda>p. degreeOf ds (fst p) = 0) accumulationQueue
      = filter (\<lambda>p. list_all (\<lambda>dep. map_of accumulationQueue dep = None)
                               (dependencies (queuedReport (snd p)))) accumulationQueue"
    by (intro filter_cong refl) (simp add: zero)
  finally show ?thesis
    using topologicalSort_starts_with_roots[of accumulationQueue] by (simp add: ds_def)
qed

section \<open>Facts about the example data\<close>

lemma demo_digest: "hash (generateWorkDigest demo_env (demo_report k)) = ''wp1/out''"
  by (simp add: generateWorkDigest_def demo_env_def demo_report_def demo_package_def)

lemma demo_report_simps:
  "guarantorPublicKey (demo_report k) = k"
  "currentGuarantors (refinementContext (demo_report k)) = [''g1'', ''g2'', ''g3'']"
  "previousGuarantors (refinementContext (demo_report k)) = []"
  by (simp_all add: demo_report_def demo_context_def)



lemma after_g1_rho:
  "rho after_g1 ''wp1/out'' =
     Some \<lparr>report = demo_report ''g1'', receivedSignatures = {|''g1''|}, submissionSlot = 100\<rparr>"
  by (simp add: after_g1_def)

lemma forged_invalid:
  "validateWorkReport demo_env forged_report demo_state 100 [] =
     Inl (ProtocolError ''bad_signature: Work-Report signature is invalid.'')"
  by (simp add: eval_defs)

lemma g2_valid_after_g1:
  "validateWorkReport demo_env (demo_report ''g2'') after_g1 100 [] = Inr ()"
  by (simp add: eval_defs)

lemma unregistered_digest: "hash (generateWorkDigest demo_env unregistered_report) = ''wp1/out''"
  by (simp add: generateWorkDigest_def demo_env_def unregistered_report_def demo_report_def
      demo_package_def)

lemma unregistered_valid:
  "validateWorkReport demo_env unregistered_report demo_state 100 [] = Inr ()"
  "validateWorkReport_ts demo_env unregistered_report demo_state 100 [] = Inr ()"
  by (simp_all add: eval_defs unregistered_report_def validateWorkReport_ts_def
      firstProgramHash_def)

lemma queued_sort: "topologicalSort (omega queued_state) = [''wp1/out'']"
  by (simp add: queued_state_def queue_defs transfer_report_def demo_report_def)

lemma example_dependencies:
  "dependencies (demo_report k) = []" "dependencies other_report = []"
  "dependencies dependent_report = [''wp1/out'']"
  by (simp_all add: demo_report_def other_report_def dependent_report_def)

section \<open>The claims\<close>

text \<open>
  C1 (bucket disjointness).  The claim: in every reachable state a digest is in at most
  one of \<open>\<rho>\<close>, \<open>\<omega>\<close>, \<open>\<xi>\<close>, and a Guarantee for a digest that is already in \<open>\<omega>\<close> does not
  create an entry for it in \<open>\<rho>\<close>.  The code checks the digest against \<open>\<xi>\<close> only.  With
  three guarantors (threshold 2), starting from empty buckets: after the Guarantees of
  \<open>g1\<close> and \<open>g2\<close> the digest is in \<open>\<omega>\<close> and not in \<open>\<rho>\<close>; the Guarantee of \<open>g3\<close> then
  creates a fresh entry for it in \<open>\<rho>\<close> while \<open>\<omega>\<close> still holds it.
\<close>

theorem guarantee_recreates_pending_entry:
  "rho (demo_guarantees [''g1'', ''g2'']) ''wp1/out'' = None
   \<and> map_of (omega (demo_guarantees [''g1'', ''g2''])) ''wp1/out''
       = Some \<lparr>queuedReport = demo_report ''g2'', status = Ready\<rparr>
   \<and> rho (demo_guarantees [''g1'', ''g2'', ''g3'']) ''wp1/out''
       = Some \<lparr>report = demo_report ''g3'', receivedSignatures = {|''g3''|},
               submissionSlot = 100\<rparr>
   \<and> map_of (omega (demo_guarantees [''g1'', ''g2'', ''g3''])) ''wp1/out''
       = Some \<lparr>queuedReport = demo_report ''g2'', status = Ready\<rparr>"
  by (simp add: eval_defs)

text \<open>
  C2 (bad_service_id), as amended.  For a report whose service identifier is not a key
  of the service registry, neither implementation raises \<open>bad_service_id\<close> (the \<open>throw\<close>
  is commented out in both), and the report is treated as if its service were
  registered: with any record \<open>svc\<close> for the service that has no code hash, or has the
  code hash of the report's first work item, the result of validation is the same, and
  so are the value that \<open>processGuaranteeExtrinsic\<close> returns and the state it leaves
  (the registry apart).  In particular a report that is valid under such a registration,
  and whose digest is not pending yet, is accepted: the call returns true, \<open>\<psi>_B\<close> is
  unchanged and the digest is in \<open>\<rho>\<close> or in \<open>\<omega>\<close>.
\<close>

theorem unregistered_service_not_rejected:
  fixes E R S s cbd svc
  defines "u \<equiv> svc_u (authorizationServiceDetails (workPackage R))"
  defines "S' \<equiv> S\<lparr>globalState := (globalState S)
                    \<lparr>serviceRegistry := (serviceRegistry (globalState S))(u \<mapsto> svc)\<rparr>\<rparr>"
  assumes unregistered: "serviceRegistry (globalState S) u = None"
    and matching: "truthy (codeHash svc) \<longrightarrow> firstProgramHash R = codeHash svc"
  shows "validateWorkReport E R S s cbd = validateWorkReport E R S' s cbd
       \<and> validateWorkReport_ts E R S s cbd = validateWorkReport_ts E R S' s cbd
       \<and> processGuaranteeExtrinsic E R S s cbd =
           (fst (processGuaranteeExtrinsic E R S' s cbd),
            (snd (processGuaranteeExtrinsic E R S' s cbd))\<lparr>globalState := globalState S\<rparr>)
       \<and> processGuaranteeExtrinsic_ts E R S s cbd =
           (fst (processGuaranteeExtrinsic_ts E R S' s cbd),
            (snd (processGuaranteeExtrinsic_ts E R S' s cbd))\<lparr>globalState := globalState S\<rparr>)
       \<and> (\<forall>m. validateWorkReport E R S s cbd = Inl (ProtocolError m) \<longrightarrow> \<not> prefix ''bad_service_id'' m)
       \<and> (\<forall>m. validateWorkReport_ts E R S s cbd = Inl (ProtocolError m) \<longrightarrow> \<not> prefix ''bad_service_id'' m)
       \<and> (validateWorkReport E R S' s cbd = Inr () \<and> rho S (hash (generateWorkDigest E R)) = None
            \<longrightarrow> fst (processGuaranteeExtrinsic E R S s cbd)
               \<and> psi_B (snd (processGuaranteeExtrinsic E R S s cbd)) = psi_B S
               \<and> (rho (snd (processGuaranteeExtrinsic E R S s cbd)) (hash (generateWorkDigest E R)) =
                     Some \<lparr>report = R, receivedSignatures = {|guarantorPublicKey R|},
                           submissionSlot = s\<rparr>
                  \<or> map_of (omega (snd (processGuaranteeExtrinsic E R S s cbd)))
                       (hash (generateWorkDigest E R)) = Some \<lparr>queuedReport = R, status = Ready\<rparr>))"
proof -
  have e: "expectedCodeHashOf S u = None" "expectedCodeHashOf S' u = codeHash svc"
    using unregistered by (simp_all add: expectedCodeHashOf_def S'_def)
  have nonempty: "truthy (codeHash svc) \<Longrightarrow> workItems (workPackage R) \<noteq> []"
    using matching by (auto simp: truthy_def firstProgramHash_def split: option.splits list.splits)
  have frame: "coreStatus (globalState S) = coreStatus (globalState S')" "xi S = xi S'"
    "rho S = rho S'"
    by (simp_all add: S'_def)
  have js: "validateWorkReport E R S s cbd = validateWorkReport E R S' s cbd"
    using nonempty
    by (intro validateWorkReport_cong_js frame) (auto simp: e[unfolded u_def] truthy_def)
  have ts: "validateWorkReport_ts E R S s cbd = validateWorkReport_ts E R S' s cbd"
    using matching
    by (intro validateWorkReport_cong_ts frame) (auto simp: e[unfolded u_def] truthy_def)
  have S: "S = S'\<lparr>globalState := globalState S\<rparr>"
    by (simp add: S'_def)
  have pj: "processGuaranteeExtrinsic E R S s cbd =
           (fst (processGuaranteeExtrinsic E R S' s cbd),
            (snd (processGuaranteeExtrinsic E R S' s cbd))\<lparr>globalState := globalState S\<rparr>)"
    unfolding processGuaranteeExtrinsic_def js[symmetric]
    by (subst (1 2) S) (simp add: admitReport_globalState rejectReport_globalState split: sum.splits)
  have pt: "processGuaranteeExtrinsic_ts E R S s cbd =
           (fst (processGuaranteeExtrinsic_ts E R S' s cbd),
            (snd (processGuaranteeExtrinsic_ts E R S' s cbd))\<lparr>globalState := globalState S\<rparr>)"
    unfolding processGuaranteeExtrinsic_ts_def ts[symmetric]
    by (subst (1 2) S) (simp add: admitReport_globalState rejectReport_globalState split: sum.splits)
  have first: "fst (processGuaranteeExtrinsic E R S s cbd)
               \<and> psi_B (snd (processGuaranteeExtrinsic E R S s cbd)) = psi_B S
               \<and> (rho (snd (processGuaranteeExtrinsic E R S s cbd)) (hash (generateWorkDigest E R)) =
                     Some \<lparr>report = R, receivedSignatures = {|guarantorPublicKey R|},
                           submissionSlot = s\<rparr>
                  \<or> map_of (omega (snd (processGuaranteeExtrinsic E R S s cbd)))
                       (hash (generateWorkDigest E R)) = Some \<lparr>queuedReport = R, status = Ready\<rparr>)"
    if "validateWorkReport E R S' s cbd = Inr ()" "rho S (hash (generateWorkDigest E R)) = None"
    using that admitReport_first[OF that(2), of s]
    by (simp add: processGuaranteeExtrinsic_def js)
  show ?thesis
    using js ts pj pt first no_bad_service_id no_bad_service_id_ts by blast
qed


theorem unregistered_service_not_rejected_witness:
  "validateWorkReport demo_env unregistered_report demo_state 100 [] =
     validateWorkReport demo_env unregistered_report registered_state 100 []
   \<and> fst (processGuaranteeExtrinsic demo_env unregistered_report demo_state 100 [])
   \<and> psi_B (snd (processGuaranteeExtrinsic demo_env unregistered_report demo_state 100 []))
       = psi_B demo_state"
proof -
  let ?svc = "\<lparr>codeHash = Some ''0xprogramhash123'', owner = None\<rparr>"
  have u: "svc_u (authorizationServiceDetails (workPackage unregistered_report)) = ''unknown.service''"
    by (simp add: unregistered_report_def)
  have s: "serviceRegistry (globalState demo_state)
       (svc_u (authorizationServiceDetails (workPackage unregistered_report))) = None"
    by (simp add: unregistered_report_def demo_state_def)
  have m: "truthy (codeHash ?svc) \<longrightarrow> firstProgramHash unregistered_report = codeHash ?svc"
    by (simp add: firstProgramHash_def unregistered_report_def demo_report_def demo_package_def
        demo_item_def)
  have v: "validateWorkReport demo_env unregistered_report registered_state 100 [] = Inr ()"
    by (simp add: eval_defs unregistered_report_def registered_state_def)
  have r: "rho demo_state (hash (generateWorkDigest demo_env unregistered_report)) = None"
    by (simp add: demo_state_def newOnchainState_def)
  note t = unregistered_service_not_rejected[OF s m, where E = demo_env and s = 100 and cbd = "[]",
        unfolded u, folded registered_state_def]
  from t v r show ?thesis by blast
qed

text \<open>
  The claim as stated fails: a report for the unregistered service \<open>unknown.service\<close>
  that passes the other checks is accepted by both implementations; the call returns
  true, the digest is pending in \<open>\<rho>\<close> and \<open>\<psi>_B\<close> has no entry for it.
\<close>

theorem unregistered_service_counterexample:
  "serviceRegistry (globalState demo_state)
       (svc_u (authorizationServiceDetails (workPackage unregistered_report))) = None
   \<and> fst (processGuaranteeExtrinsic demo_env unregistered_report demo_state 100 [])
   \<and> psi_B (snd (processGuaranteeExtrinsic demo_env unregistered_report demo_state 100 []))
        ''wp1/out'' = None
   \<and> rho (snd (processGuaranteeExtrinsic demo_env unregistered_report demo_state 100 []))
        ''wp1/out'' =
       Some \<lparr>report = unregistered_report, receivedSignatures = {|''g1''|}, submissionSlot = 100\<rparr>
   \<and> fst (processGuaranteeExtrinsic_ts demo_env unregistered_report demo_state 100 [])
   \<and> psi_B (snd (processGuaranteeExtrinsic_ts demo_env unregistered_report demo_state 100 []))
        ''wp1/out'' = None
   \<and> rho (snd (processGuaranteeExtrinsic_ts demo_env unregistered_report demo_state 100 []))
        ''wp1/out'' =
       Some \<lparr>report = unregistered_report, receivedSignatures = {|''g1''|}, submissionSlot = 100\<rparr>"
proof -
  have m: "mergeSignature unregistered_report demo_state 100
             (hash (generateWorkDigest demo_env unregistered_report)) =
      Some \<lparr>report = unregistered_report, receivedSignatures = {|''g1''|}, submissionSlot = 100\<rparr>"
    by (simp add: unregistered_digest mergeSignature_def demo_state_def newOnchainState_def
        unregistered_report_def demo_report_def)
  have r: "requiredSignatures unregistered_report = 2"
    by (simp add: requiredSignatures_def totalGuarantors_def unregistered_report_def
        demo_report_def demo_context_def SUPER_MAJORITY_THRESHOLD_NUMERATOR_def
        SUPER_MAJORITY_THRESHOLD_DENOMINATOR_def)
  have a: "admitReport demo_env unregistered_report demo_state 100 =
     (True, demo_state\<lparr>rho := (rho demo_state)(''wp1/out'' \<mapsto>
        \<lparr>report = unregistered_report, receivedSignatures = {|''g1''|}, submissionSlot = 100\<rparr>)\<rparr>)"
    by (simp add: admitReport_merged[OF m] r unregistered_digest fcard_finsert_if fcard_fempty
        REPORT_TIMEOUT_SLOTS_def)
  have s: "serviceRegistry (globalState demo_state)
       (svc_u (authorizationServiceDetails (workPackage unregistered_report))) = None"
    by (simp add: unregistered_report_def demo_state_def)
  have b: "psi_B demo_state ''wp1/out'' = None"
    by (simp add: demo_state_def newOnchainState_def)
  show ?thesis
    by (simp add: processGuaranteeExtrinsic_def processGuaranteeExtrinsic_ts_def
        unregistered_valid a s b)
qed

text \<open>
  C3 (atomicity of accumulation), as amended.  When the work items of a ready report
  are \<open>pre @ w # post\<close>, the items of \<open>pre\<close> succeed from the global state at the start
  of the report and lead to \<open>gs1\<close>, and \<open>\<Psi>_A\<close> fails on \<open>w\<close> in \<open>gs1\<close>, then the body of the
  loop of \<open>processAccumulationQueue\<close> (of either implementation, \<open>run\<close> being its loop
  over the work items) leaves the global state \<open>gs1\<close>: the deltas of the earlier items
  stay applied.  The report leaves \<open>\<omega>\<close>, \<open>\<psi>_B\<close> records \<open>accumulation_failed\<close> with the
  message of the error, and the guarantor is charged in \<open>\<psi>_O\<close>.  When the queue holds
  this report only, \<open>gs1\<close> is the global state that \<open>processAccumulationQueue\<close> returns.
\<close>

theorem accumulation_keeps_partial_deltas:
  assumes impl: "run = runWorkItems E \<or> run = runWorkItems_ts E"
    and queued: "map_of (omega S) d = Some \<lparr>queuedReport = R, status = Ready\<rparr>"
    and items: "workItems (workPackage R) = pre @ w # post"
    and ok: "run (globalState S) pre = (gs1, None)"
    and fails: "simulatePsiAPVM E w gs1 = Inl err"
  shows "accumulateReport run s S d =
     S\<lparr>globalState := gs1,
       omega := AList.delete d (omega S),
       psi_B := (psi_B S)(d \<mapsto> \<lparr>reason = ''accumulation_failed: '' @ message err,
                                disputedBy = {|''system_accumulation''|}\<rparr>),
       psi_O := chargeOffender (psi_O S) (guarantorPublicKey R) s\<rparr>
    \<and> globalState (accumulateReport run s S d) = gs1
    \<and> (omega S = [(d, \<lparr>queuedReport = R, status = Ready\<rparr>)] \<and> d \<notin> set (dependencies R)
         \<longrightarrow> globalState
               (if run = runWorkItems E then processAccumulationQueue E S s
                else processAccumulationQueue_ts E S s) = gs1)"
proof -
  have "run (globalState S) (workItems (workPackage R)) = (gs1, Some err)"
    unfolding items using impl ok fails runWorkItems_stops runWorkItems_ts_stops by blast
  from accumulateReport_failure[where run = run, OF queued this]
  have a: "accumulateReport run s S d =
     S\<lparr>globalState := gs1,
       omega := AList.delete d (omega S),
       psi_B := (psi_B S)(d \<mapsto> \<lparr>reason = ''accumulation_failed: '' @ message err,
                                disputedBy = {|''system_accumulation''|}\<rparr>),
       psi_O := chargeOffender (psi_O S) (guarantorPublicKey R) s\<rparr>" .
  have "(if run = runWorkItems E then processAccumulationQueue E S s
                else processAccumulationQueue_ts E S s) = accumulateReport run s S d"
    if "omega S = [(d, \<lparr>queuedReport = R, status = Ready\<rparr>)]" "d \<notin> set (dependencies R)"
    using that impl
    by (auto simp: processAccumulationQueue_def processAccumulationQueue_ts_def
        topologicalSort_single)
  with a show ?thesis by simp
qed

theorem accumulation_keeps_partial_deltas_witness:
  "accounts (globalState (accumulateReport (runWorkItems demo_env) 101 queued_state ''wp1/out''))
      ''0xAlice'' = Some \<lparr>balance = 900\<rparr>
   \<and> accounts (globalState (accumulateReport (runWorkItems demo_env) 101 queued_state ''wp1/out''))
      ''0xBob'' = Some \<lparr>balance = 600\<rparr>
   \<and> map_of (omega (accumulateReport (runWorkItems demo_env) 101 queued_state ''wp1/out''))
      ''wp1/out'' = None
   \<and> accounts (globalState (processAccumulationQueue demo_env queued_state 101)) ''0xAlice''
       = Some \<lparr>balance = 900\<rparr>"
proof -
  define gs1 where "gs1 = fst (runWorkItems demo_env (globalState queued_state) [transfer_ok])"
  have q: "map_of (omega queued_state) ''wp1/out'' =
      Some \<lparr>queuedReport = transfer_report, status = Ready\<rparr>"
    by (simp add: queued_state_def)
  have i: "workItems (workPackage transfer_report) = [transfer_ok] @ transfer_fails # []"
    by (simp add: transfer_report_def)
  have "snd (runWorkItems demo_env (globalState queued_state) [transfer_ok]) = None"
    by (simp add: queued_state_def demo_state_def newOnchainState_def transfer_ok_def pvm_defs
        demo_env_def)
  then have ok: "runWorkItems demo_env (globalState queued_state) [transfer_ok] = (gs1, None)"
    by (simp add: prod_eq_iff gs1_def)
  have acc: "accounts gs1 ''0xAlice'' = Some \<lparr>balance = 900\<rparr>"
    "accounts gs1 ''0xBob'' = Some \<lparr>balance = 600\<rparr>"
    unfolding gs1_def
    by (simp_all add: queued_state_def demo_state_def newOnchainState_def transfer_ok_def pvm_defs
        demo_env_def)
  have fails: "simulatePsiAPVM demo_env transfer_fails gs1 =
      Inl (pvmFailure transfer_fails ''Insufficient balance or invalid accounts for transfer.'')"
    by (simp add: simulatePsiAPVM_def runProgram_def acc transfer_fails_def demo_env_def
        demo_parseTransfer_def)
  have o: "omega queued_state = [(''wp1/out'', \<lparr>queuedReport = transfer_report, status = Ready\<rparr>)]"
    by (simp add: queued_state_def)
  show ?thesis
    using accumulation_keeps_partial_deltas[where run = "runWorkItems demo_env" and E = demo_env
        and s = 101, OF _ q i ok fails]
    by (simp add: acc o transfer_report_def demo_report_def)
qed

text \<open>
  The claim as stated fails: a ready report whose first item transfers 100 from Alice
  (balance 1000) to Bob and whose second item fails for insufficient balance leaves
  Alice with 900 after \<open>processAccumulationQueue\<close>, in both implementations, although
  the report is recorded as failed.
\<close>

theorem accumulation_rollback_counterexample:
  "accounts (globalState queued_state) ''0xAlice'' = Some \<lparr>balance = 1000\<rparr>
   \<and> accounts (globalState (processAccumulationQueue demo_env queued_state 101)) ''0xAlice''
       = Some \<lparr>balance = 900\<rparr>
   \<and> psi_B (processAccumulationQueue demo_env queued_state 101) ''wp1/out''
       = Some \<lparr>reason = ''accumulation_failed: '' @ message (pvmFailure transfer_fails
                  ''Insufficient balance or invalid accounts for transfer.''),
               disputedBy = {|''system_accumulation''|}\<rparr>
   \<and> accounts (globalState (processAccumulationQueue_ts demo_env queued_state 101)) ''0xAlice''
       = Some \<lparr>balance = 900\<rparr>
   \<and> psi_B (processAccumulationQueue_ts demo_env queued_state 101) ''wp1/out''
       = Some \<lparr>reason = ''accumulation_failed: '' @ message (pvmFailure transfer_fails
                  ''Insufficient balance or invalid accounts for transfer.''),
               disputedBy = {|''system_accumulation''|}\<rparr>"
  unfolding processAccumulationQueue_def processAccumulationQueue_ts_def queued_sort
  by (simp add: queued_state_def demo_state_def newOnchainState_def transfer_report_def
      demo_report_def demo_package_def transfer_ok_def transfer_fails_def pvm_defs demo_env_def
      accumulateReport_def chargeOffender_def Let_def)

text \<open>
  C4 (order of the topological sort), as amended.  \<open>topologicalSort\<close> never compares
  digests: its result follows the insertion order of the queue.  The digests whose
  reports have no dependency inside the queue come first, in the order in which the
  queue holds them; when no report of the queue depends on another one, the result is
  the queue's own order.
\<close>

theorem topologicalSort_insertion_order:
  assumes "distinct (map fst accumulationQueue)"
  shows "prefix
     (map fst (filter (\<lambda>p. list_all (\<lambda>dep. map_of accumulationQueue dep = None)
                               (dependencies (queuedReport (snd p)))) accumulationQueue))
     (topologicalSort accumulationQueue)
   \<and> (list_all (\<lambda>p. list_all (\<lambda>dep. map_of accumulationQueue dep = None)
                          (dependencies (queuedReport (snd p)))) accumulationQueue
        \<longrightarrow> topologicalSort accumulationQueue = map fst accumulationQueue)"
  using topologicalSort_roots_first[OF assms] topologicalSort_independent[OF assms] by blast

theorem topologicalSort_insertion_order_witness:
  "prefix [''wp1/out'', ''wp0/out''] (topologicalSort queue_210)
   \<and> topologicalSort queue_210 = [''wp1/out'', ''wp0/out'', ''wp2/out'']
   \<and> topologicalSort queue_10 = [''wp1/out'', ''wp0/out'']
   \<and> topologicalSort queue_01 = [''wp0/out'', ''wp1/out'']"
proof -
  have d: "distinct (map fst queue_210)" "distinct (map fst queue_10)" "distinct (map fst queue_01)"
    by (simp_all add: queue_210_def queue_10_def queue_01_def)
  have "prefix [''wp1/out'', ''wp0/out''] (topologicalSort queue_210)"
    using topologicalSort_insertion_order[OF d(1)]
    by (simp add: queue_210_def example_dependencies)
  moreover have "topologicalSort queue_210 = [''wp1/out'', ''wp0/out'', ''wp2/out'']"
    by (simp add: queue_210_def queue_defs example_dependencies)
  moreover have "topologicalSort queue_10 = [''wp1/out'', ''wp0/out'']"
    using topologicalSort_insertion_order[OF d(2)]
    by (simp add: queue_10_def example_dependencies)
  moreover have "topologicalSort queue_01 = [''wp0/out'', ''wp1/out'']"
    using topologicalSort_insertion_order[OF d(3)]
    by (simp add: queue_01_def example_dependencies)
  ultimately show ?thesis by simp
qed

text \<open>
  The claim as stated fails: two queues with the same two independent entries,
  inserted in opposite orders, are sorted into different sequences, and the first of
  them is not in lexicographic order.
\<close>

theorem topologicalSort_order_counterexample:
  "set queue_10 = set queue_01
   \<and> distinct (map fst queue_10) \<and> distinct (map fst queue_01)
   \<and> topologicalSort queue_10 = [''wp1/out'', ''wp0/out'']
   \<and> topologicalSort queue_01 = [''wp0/out'', ''wp1/out'']
   \<and> topologicalSort queue_10 \<noteq> topologicalSort queue_01"
proof -
  have a: "topologicalSort queue_10 = [''wp1/out'', ''wp0/out'']"
    by (simp add: queue_10_def queue_defs example_dependencies)
  have b: "topologicalSort queue_01 = [''wp0/out'', ''wp1/out'']"
    by (simp add: queue_01_def queue_defs example_dependencies)
  have c: "set queue_10 = set queue_01"
    by (auto simp: queue_10_def queue_01_def)
  have d: "distinct (map fst queue_10)" "distinct (map fst queue_01)"
    by (simp_all add: queue_10_def queue_01_def)
  show ?thesis
    unfolding a b using c d by simp
qed

text \<open>
  C5 (promotion threshold).  For a Guarantee that passes validation and adds a new
  signature for its digest \<open>d\<close>: the call returns true with \<open>d\<close> out of \<open>\<rho>\<close> and in \<open>\<omega>\<close>
  with status ready exactly when the number of signatures after the merge is at least
  \<open>\<lceil>(|currentGuarantors| + |previousGuarantors|) \<cdot> 2 / 3\<rceil>\<close>; below the threshold, and
  without a timeout, the call returns true, \<open>d\<close> stays in \<open>\<rho>\<close> with the merged
  signatures and \<open>\<omega>\<close> is unchanged.
\<close>

theorem promotion_threshold:
  fixes E R S s cbd
  defines "d \<equiv> hash (generateWorkDigest E R)"
  defines "sigs \<equiv> (case rho S d of None \<Rightarrow> {|guarantorPublicKey R|}
                      | Some e \<Rightarrow> finsert (guarantorPublicKey R) (receivedSignatures e))"
  defines "firstSeen \<equiv> (case rho S d of None \<Rightarrow> s | Some e \<Rightarrow> submissionSlot e)"
  defines "threshold \<equiv> \<lceil>real (length (currentGuarantors (refinementContext R))
                    + length (previousGuarantors (refinementContext R))) * 2 / 3\<rceil>"
  defines "res \<equiv> processGuaranteeExtrinsic E R S s cbd"
  assumes valid: "validateWorkReport E R S s cbd = Inr ()"
    and fresh: "\<forall>e. rho S d = Some e \<longrightarrow> guarantorPublicKey R |\<notin>| receivedSignatures e"
  shows "((fst res \<and> rho (snd res) d = None
            \<and> map_of (omega (snd res)) d = Some \<lparr>queuedReport = R, status = Ready\<rparr>)
          = (threshold \<le> int (fcard sigs)))
       \<and> (int (fcard sigs) < threshold \<and> s - firstSeen \<le> REPORT_TIMEOUT_SLOTS
          \<longrightarrow> fst res \<and> omega (snd res) = omega S
             \<and> (\<exists>entry. rho (snd res) d = Some entry \<and> receivedSignatures entry = sigs))"
proof -
  obtain entry where m: "mergeSignature R S s d = Some entry"
    and sg: "receivedSignatures entry = sigs"
    and sl: "submissionSlot entry = firstSeen"
  proof (cases "rho S d")
    case None
    then show ?thesis using that by (simp add: mergeSignature_def sigs_def firstSeen_def)
  next
    case (Some e)
    then show ?thesis using that fresh by (simp add: mergeSignature_def sigs_def firstSeen_def)
  qed
  have thr: "int (requiredSignatures R) = threshold"
    using requiredSignatures_ceiling[of R] by (simp add: totalGuarantors_def threshold_def)
  have res: "res = admitReport E R S s"
    using valid by (simp add: res_def processGuaranteeExtrinsic_def)
  note a = admitReport_merged[OF m[unfolded d_def], folded d_def]
  show ?thesis
    unfolding thr[symmetric] res a sg[symmetric] sl[symmetric]
    by (auto simp: map_of_update_same)
qed

theorem promotion_threshold_witness:
  "fst (processGuaranteeExtrinsic demo_env (demo_report ''g2'') after_g1 100 [])
   \<and> rho (snd (processGuaranteeExtrinsic demo_env (demo_report ''g2'') after_g1 100 []))
        ''wp1/out'' = None
   \<and> map_of (omega (snd (processGuaranteeExtrinsic demo_env (demo_report ''g2'') after_g1 100 [])))
        ''wp1/out'' = Some \<lparr>queuedReport = demo_report ''g2'', status = Ready\<rparr>"
proof -
  have f: "\<forall>e. rho after_g1 (hash (generateWorkDigest demo_env (demo_report ''g2''))) = Some e
             \<longrightarrow> guarantorPublicKey (demo_report ''g2'') |\<notin>| receivedSignatures e"
    by (simp add: demo_digest after_g1_rho demo_report_simps)
  show ?thesis
    using promotion_threshold[OF g2_valid_after_g1 f]
    by (simp add: demo_digest after_g1_rho demo_report_simps fcard_finsert_if fcard_fempty)
qed




text \<open>
  C7 (history immutability).  A digest \<open>d\<close> that is in \<open>\<xi>\<close> is still in \<open>\<xi>\<close> after a
  call of any of the four processors (the Guarantee, Assurance and Dispute processors
  do not touch \<open>\<xi>\<close> at all, and the Dispute processor always returns).  A Dispute that
  names \<open>d\<close> while \<open>d\<close> is in neither \<open>\<rho>\<close> nor \<open>\<omega>\<close> changes \<open>\<psi>_B\<close> and \<open>\<psi>_O\<close> only: it adds
  the disputer to \<open>disputedBy\<close> of \<open>\<psi>_B[d]\<close>, or inserts the entry with the Dispute's
  reason, and charges the guarantor of the finalized report.
\<close>

theorem history_immutable:
  assumes "xi S d = Some R0"
  shows "xi (snd (processGuaranteeExtrinsic E R S s cbd)) d = Some R0
     \<and> xi (snd (processGuaranteeExtrinsic_ts E R S s cbd)) d = Some R0
     \<and> xi (processAssuranceExtrinsic a S s) d = Some R0
     \<and> (\<exists>S'. processDisputeExtrinsic x S s = Inr S' \<and> xi S' d = Some R0)
     \<and> xi (processAccumulationQueue E S s) d \<noteq> None
     \<and> xi (processAccumulationQueue_ts E S s) d \<noteq> None
     \<and> (rho S d = None \<and> map_of (omega S) d = None \<longrightarrow>
          processDisputeExtrinsic
             \<lparr>disputedDigestHash = d, disputerPublicKey = p, disputeReason = r\<rparr> S s =
          Inr (S\<lparr>psi_B :=
                  (case psi_B S d of
                     Some bad \<Rightarrow> (psi_B S)(d \<mapsto> bad\<lparr>disputedBy := finsert p (disputedBy bad)\<rparr>)
                   | None \<Rightarrow> (psi_B S)(d \<mapsto> \<lparr>reason = r, disputedBy = {|p|}\<rparr>)),
                 psi_O := (psi_O S)(guarantorPublicKey R0 \<mapsto>
                    (case psi_O S (guarantorPublicKey R0) of
                       None \<Rightarrow> \<lparr>disputeCount = 1, lastDisputeSlot = s\<rparr>
                     | Some off \<Rightarrow>
                         \<lparr>disputeCount = disputeCount off + 1, lastDisputeSlot = s\<rparr>))\<rparr>))"
proof -
  have "xi (processAccumulationQueue E S s) d \<noteq> None"
    using assms by (simp add: processAccumulationQueue_def foldl_accumulateReport_xi)
  moreover have "xi (processAccumulationQueue_ts E S s) d \<noteq> None"
    using assms by (simp add: processAccumulationQueue_ts_def foldl_accumulateReport_xi)
  moreover have "\<exists>S'. processDisputeExtrinsic x S s = Inr S' \<and> xi S' d = Some R0"
    using processDisputeExtrinsic_xi[of x S s] assms by auto
  moreover have "chargeOffender (psi_O S) (guarantorPublicKey R0) s =
      (psi_O S)(guarantorPublicKey R0 \<mapsto>
                    (case psi_O S (guarantorPublicKey R0) of
                       None \<Rightarrow> \<lparr>disputeCount = 1, lastDisputeSlot = s\<rparr>
                     | Some off \<Rightarrow>
                         \<lparr>disputeCount = disputeCount off + 1, lastDisputeSlot = s\<rparr>))"
    by (simp add: chargeOffender_def OffenderEntry_update_both split: option.splits)
  ultimately show ?thesis
    using assms late_dispute[OF assms, of p r s]
    by (simp add: processGuaranteeExtrinsic_xi processGuaranteeExtrinsic_ts_xi
        processAssuranceExtrinsic_def)
qed

theorem history_immutable_witness:
  "xi (snd (processGuaranteeExtrinsic demo_env (demo_report ''g2'') finalized_state 120 []))
       ''wp1/out'' = Some (demo_report ''g1'')
   \<and> xi (processAccumulationQueue demo_env finalized_state 120) ''wp1/out'' \<noteq> None
   \<and> processDisputeExtrinsic
        \<lparr>disputedDigestHash = ''wp1/out'', disputerPublicKey = ''v9'',
         disputeReason = ''invalid output''\<rparr> finalized_state 120 =
      Inr (finalized_state
             \<lparr>psi_B := [''wp1/out'' \<mapsto> \<lparr>reason = ''invalid output'', disputedBy = {|''v9''|}\<rparr>],
              psi_O := [''g1'' \<mapsto> \<lparr>disputeCount = 1, lastDisputeSlot = 120\<rparr>]\<rparr>)"
proof -
  have x: "xi finalized_state ''wp1/out'' = Some (demo_report ''g1'')"
    by (simp add: finalized_state_def)
  have r: "rho finalized_state ''wp1/out'' = None" "map_of (omega finalized_state) ''wp1/out'' = None"
    "psi_B finalized_state = Map.empty" "psi_O finalized_state = Map.empty"
    by (simp_all add: finalized_state_def demo_state_def newOnchainState_def)
  show ?thesis
    using history_immutable[OF x, where E = demo_env and R = "demo_report ''g2''" and s = 120
        and cbd = "[]" and p = "''v9''" and r = "''invalid output''"]
    by (simp add: r demo_report_simps)
qed

text \<open>
  C8 (idempotent endorsement).  When the digest of a report is pending in \<open>\<rho>\<close> and its
  entry already holds the guarantor's key, a Guarantee that passes validation changes
  nothing and returns false; in particular the number of signatures is what it was.
\<close>

theorem duplicate_endorsement_noop:
  assumes "validateWorkReport E R S s cbd = Inr ()"
    and "rho S (hash (generateWorkDigest E R)) = Some e"
    and "guarantorPublicKey R |\<in>| receivedSignatures e"
  shows "processGuaranteeExtrinsic E R S s cbd = (False, S)
    \<and> fcard (receivedSignatures e) = fcard (finsert (guarantorPublicKey R) (receivedSignatures e))"
  using assms
  by (simp add: processGuaranteeExtrinsic_def admitReport_duplicate fcard_finsert_if)

theorem duplicate_endorsement_noop_witness:
  "processGuaranteeExtrinsic demo_env (demo_report ''g1'') after_g1 100 [] = (False, after_g1)"
proof -
  have v: "validateWorkReport demo_env (demo_report ''g1'') after_g1 100 [] = Inr ()"
    by (simp add: eval_defs)
  have p: "rho after_g1 (hash (generateWorkDigest demo_env (demo_report ''g1''))) =
     Some \<lparr>report = demo_report ''g1'', receivedSignatures = {|''g1''|}, submissionSlot = 100\<rparr>"
    by (simp add: demo_digest after_g1_rho)
  have q: "guarantorPublicKey (demo_report ''g1'') |\<in>| receivedSignatures
     \<lparr>report = demo_report ''g1'', receivedSignatures = {|''g1''|}, submissionSlot = 100\<rparr>"
    by (simp add: demo_report_simps)
  show ?thesis
    using duplicate_endorsement_noop[OF v p q] by simp
qed

text \<open>
  C9 (core index), as amended.  A report whose core index is negative or above
  \<open>MAX_CORE_INDEX\<close>, and whose key decodes, whose signature verifies and whose anchor is
  recent enough, is rejected by the JavaScript processor with \<open>bad_core_index\<close>, whatever
  the guarantor assignment and the later checks say: the call returns false and \<open>\<psi>_B\<close>
  holds that reason for the digest.
\<close>

theorem core_index_rejected:
  assumes key: "base64ToPublicKey E (guarantorPublicKey R) = Inr pk"
    and sig: "verifySignature E (signableJSON E R) (guarantorSignature R) pk"
    and anchor: "s - anchorBlockNumber (refinementContext R) \<le> ANCHOR_MAX_AGE_SLOTS"
    and core: "coreIndex R < 0 \<or> coreIndex R > MAX_CORE_INDEX"
  shows "validateWorkReport E R S s cbd =
           Inl (ProtocolError ''bad_core_index: Core index is out of bounds.'')
         \<and> fst (processGuaranteeExtrinsic E R S s cbd) = False
         \<and> psi_B (snd (processGuaranteeExtrinsic E R S s cbd)) (hash (generateWorkDigest E R)) =
             Some \<lparr>reason = ''bad_core_index: Core index is out of bounds.'',
                   disputedBy = {|''system_validation''|}\<rparr>"
proof -
  have v: "validateWorkReport E R S s cbd =
           Inl (ProtocolError ''bad_core_index: Core index is out of bounds.'')"
    using assms by (simp add: validateWorkReport_def Let_def)
  show ?thesis
    by (simp add: v processGuaranteeExtrinsic_def rejectReport_def)
qed

theorem core_index_rejected_witness:
  "validateWorkReport demo_env ((demo_report ''g1'')\<lparr>coreIndex := 1024\<rparr>) demo_state 100 [] =
           Inl (ProtocolError ''bad_core_index: Core index is out of bounds.'')
   \<and> fst (processGuaranteeExtrinsic demo_env ((demo_report ''g1'')\<lparr>coreIndex := 1024\<rparr>)
          demo_state 100 []) = False
   \<and> psi_B (snd (processGuaranteeExtrinsic demo_env ((demo_report ''g1'')\<lparr>coreIndex := 1024\<rparr>)
          demo_state 100 [])) ''wp1/out'' =
             Some \<lparr>reason = ''bad_core_index: Core index is out of bounds.'',
                   disputedBy = {|''system_validation''|}\<rparr>"
  using core_index_rejected[of demo_env "(demo_report ''g1'')\<lparr>coreIndex := 1024\<rparr>"
      "map of_char ''g1''" 100 demo_state "[]"]
  by (simp add: base64ToPublicKey_def verifySignature_def generateWorkDigest_def demo_defs
      ANCHOR_MAX_AGE_SLOTS_def MAX_CORE_INDEX_def)

text \<open>
  The claim as stated fails where an earlier check fails: a report with core index -1
  and a signature that does not verify is recorded with the reason \<open>bad_signature\<close>.
\<close>

theorem core_index_counterexample:
  "coreIndex forged_report < 0
   \<and> fst (processGuaranteeExtrinsic demo_env forged_report demo_state 100 []) = False
   \<and> psi_B (snd (processGuaranteeExtrinsic demo_env forged_report demo_state 100 [])) ''wp1/out''
       = Some \<lparr>reason = ''bad_signature: Work-Report signature is invalid.'',
               disputedBy = {|''system_validation''|}\<rparr>"
  unfolding processGuaranteeExtrinsic_def forged_invalid
  by (simp add: rejectReport_def generateWorkDigest_def demo_defs variant_defs)




end
